theory Spec2Isabelle
  imports Complex_Main "HOL-Library.Sublist" "HOL-Library.Multiset"
begin

section \<open>JavaScript values and thrown errors\<close>

text \<open>
  Every value thrown by the analysed code is an instance of a built-in error class; the
  handlers only read its \<open>message\<close>.  \<open>SystemError\<close> stands for a rejected file-system or
  network operation.
\<close>

datatype js_error =
    Error string
  | TypeError string
  | SyntaxError string
  | SystemError string

fun message :: "js_error \<Rightarrow> string" where
  "message (Error m) = m"
| "message (TypeError m) = m"
| "message (SyntaxError m) = m"
| "message (SystemError m) = m"

text \<open>
  Sequencing of statements that can throw: the first error ends the sequence, as an
  exception leaves the enclosing block.
\<close>

definition andThen :: "js_error + 'a \<Rightarrow> ('a \<Rightarrow> js_error + 'b) \<Rightarrow> js_error + 'b" where
  "andThen r f = (case r of Inl e \<Rightarrow> Inl e | Inr x \<Rightarrow> f x)"

text \<open>
  The values that \<open>JSON.parse\<close> can produce, plus \<open>undefined\<close> (the result of reading a
  missing property).  A string is the list of its code units; an object is the list of its
  own properties in enumeration order.  Numbers are only ever compared with zero here.
\<close>

datatype jsnum = NaN | NegInf | Fin real | PosInf

datatype jsval =
    Undefined
  | Null
  | Bool bool
  | Num jsnum
  | Str string
  | Arr "jsval list"
  | Obj "(string \<times> jsval) list"

definition cannotRead :: "string \<Rightarrow> string \<Rightarrow> js_error" where
  "cannotRead v k =
     TypeError (''Cannot read properties of '' @ v @ '' (reading '' @ [CHR 0x27] @ k @ [CHR 0x27] @ '')'')"

definition toPrimitiveError :: js_error where
  "toPrimitiveError = TypeError ''Cannot convert object to primitive value''"

definition notAFunction :: "string \<Rightarrow> js_error" where
  "notAFunction what = TypeError (what @ '' is not a function'')"

text \<open>
  Property read \<open>v.k\<close> (and \<open>v[0]\<close> as \<open>k = ''0''\<close>) for the property names this program
  reads: \<open>queries\<close>, \<open>mutations\<close>, \<open>length\<close>, \<open>name\<close>, \<open>path\<close>, \<open>component\<close>,
  \<open>description\<close>, \<open>choices\<close>, \<open>0\<close>, \<open>message\<close>, \<open>content\<close>.  None of them is defined
  on a built-in prototype except \<open>length\<close> of strings and arrays.  Reading a property of
  \<open>undefined\<close> or \<open>null\<close> throws.
\<close>

fun getProp :: "jsval \<Rightarrow> string \<Rightarrow> js_error + jsval" where
  "getProp Undefined k = Inl (cannotRead ''undefined'' k)"
| "getProp Null k = Inl (cannotRead ''null'' k)"
| "getProp (Obj kvs) k = Inr (case map_of kvs k of None \<Rightarrow> Undefined | Some v \<Rightarrow> v)"
| "getProp (Arr xs) k =
     Inr (if k = ''length'' then Num (Fin (real (length xs)))
          else if k = ''0'' then (case xs of [] \<Rightarrow> Undefined | x # _ \<Rightarrow> x)
          else Undefined)"
| "getProp (Str s) k =
     Inr (if k = ''length'' then Num (Fin (real (length s)))
          else if k = ''0'' then (case s of [] \<Rightarrow> Undefined | c # _ \<Rightarrow> Str [c])
          else Undefined)"
| "getProp (Bool b) k = Inr Undefined"
| "getProp (Num n) k = Inr Undefined"

text \<open>
  Whether the conversion to a string done by a template literal \<open>`${v}`\<close> succeeds.  A parsed
  object has no callable property of its own, so an own property named \<open>toString\<close> hides
  \<open>Object.prototype.toString\<close> and the conversion throws a \<open>TypeError\<close>; an array is joined
  from the conversions of its elements.
\<close>

fun toStringOk :: "jsval \<Rightarrow> bool" where
  "toStringOk (Obj kvs) = (map_of kvs ''toString'' = None)"
| "toStringOk (Arr xs) = list_all toStringOk xs"
| "toStringOk v = True"

fun numGt0 :: "jsnum \<Rightarrow> bool" where
  "numGt0 (Fin r) = (0 < r)"
| "numGt0 PosInf = True"
| "numGt0 NegInf = False"
| "numGt0 NaN = False"

section \<open>Text operations\<close>

definition newline :: char where
  "newline = CHR 0x0A"

text \<open>\<open>xs.join(sep)\<close> on an array of strings.\<close>

fun joinWith :: "string \<Rightarrow> string list \<Rightarrow> string" where
  "joinWith sep [] = []"
| "joinWith sep [x] = x"
| "joinWith sep (x # y # zs) = x @ sep @ joinWith sep (y # zs)"

text \<open>\<open>s.split(c)\<close> for a one-character separator: never the empty array.\<close>

fun splitOn :: "char \<Rightarrow> string \<Rightarrow> string list" where
  "splitOn c [] = [Nil]"
| "splitOn c (x # xs) =
     (if x = c then [] # splitOn c xs
      else (case splitOn c xs of [] \<Rightarrow> [x # Nil] | seg # segs \<Rightarrow> (x # seg) # segs))"

text \<open>
  \<open>s.replace(/^lit/, '')\<close> and \<open>s.replace(/lit$/, '')\<close> for a literal pattern: without the
  \<open>m\<close> flag the anchors match at the two ends of the input only, and without the \<open>g\<close> flag
  one match is replaced.
\<close>

definition replacePrefix :: "string \<Rightarrow> string \<Rightarrow> string" where
  "replacePrefix lit s = (if prefix lit s then drop (length lit) s else s)"

definition replaceSuffix :: "string \<Rightarrow> string \<Rightarrow> string" where
  "replaceSuffix lit s = (if suffix lit s then take (length s - length lit) s else s)"

definition openingFence :: string where
  "openingFence = ''```json'' @ [newline]"

definition closingFence :: string where
  "closingFence = newline # ''```''"

text \<open>
  \<open>.replace(/^```json\n/, '').replace(/\n```$/, '')\<close>, as applied to the reply text in
  \<open>analyzePageGraphQL\<close> and \<open>analyzePages\<close>.
\<close>

definition cleanedResponse :: "string \<Rightarrow> string" where
  "cleanedResponse text = replaceSuffix closingFence (replacePrefix openingFence text)"

section \<open>Results, requests and the environment\<close>

text \<open>
  The object returned by \<open>analyzePageGraphQL\<close>, in its two shapes:
  \<open>{page, analysis, queryCount, mutationCount}\<close> and \<open>{page, error}\<close>.
\<close>

datatype analysis_result =
    Success jsval jsval jsval jsval
  | Failure jsval string

fun resultPage :: "analysis_result \<Rightarrow> jsval" where
  "resultPage (Success p a q m) = p"
| "resultPage (Failure p e) = p"

fun isFailure :: "analysis_result \<Rightarrow> bool" where
  "isFailure (Failure p e) = True"
| "isFailure (Success p a q m) = False"

record request =
  authorization :: string
  requestModel :: string
  temperature :: real
  prompt :: string

record http_response =
  ok :: bool
  statusText :: string
  body :: "js_error + string"

text \<open>The effects a run performs, in order.  Console output is not recorded.\<close>

datatype event =
    Fetch request
  | Delay nat
  | WriteFile string string

text \<open>
  What the code takes from outside itself.  The first fields are the answers of the outside
  world: \<open>fetch n r\<close> is the outcome of the request \<open>r\<close> when \<open>n\<close> requests were made before it,
  \<open>readFile\<close> and \<open>writeFile\<close> are the file system, \<open>toISOString\<close> is the clock.  The others
  are functions of the JavaScript runtime and of the \<open>path\<close> module, which the model leaves
  open: \<open>JSON_parse\<close>, \<open>JSON_stringify\<close> (with indentation 2), \<open>stringGt0 v\<close> (whether the
  number that the string or array \<open>v\<close> converts to is greater than zero), \<open>ToString\<close> (the
  text a template literal inserts for a value), \<open>path_join\<close>, \<open>path_relative\<close> and
  \<open>path_sep\<close>.
\<close>

record env =
  fetch :: "nat \<Rightarrow> request \<Rightarrow> js_error + http_response"
  readFile :: "string \<Rightarrow> js_error + string"
  writeFile :: "string \<Rightarrow> string \<Rightarrow> js_error option"
  toISOString :: string
  OPENROUTER_API_KEY :: "string option"
  JSON_parse :: "string \<Rightarrow> js_error + jsval"
  JSON_stringify :: "analysis_result list \<Rightarrow> string"
  stringGt0 :: "jsval \<Rightarrow> bool"
  ToString :: "jsval \<Rightarrow> string"
  path_join :: "string \<Rightarrow> string \<Rightarrow> string"
  path_relative :: "string \<Rightarrow> string \<Rightarrow> string"
  path_sep :: char

section \<open>File Scanner\<close>

text \<open>
  A directory entry as \<open>readdir(..., {withFileTypes: true})\<close> reports it, with what reading
  it gives: a regular file (name, result of \<open>readFile\<close>), a directory (name, its entries), a
  directory that cannot be listed, and anything else (a symbolic link, a socket), which is
  neither \<open>isDirectory()\<close> nor \<open>isFile()\<close>.
\<close>

datatype dirent =
    File string "js_error + string"
  | Directory string "dirent list"
  | UnreadableDirectory string js_error
  | Other string

text \<open>\<open>/\.(js|jsx|ts|tsx)$/.test(name)\<close>\<close>

definition hasSourceExtension :: "string \<Rightarrow> bool" where
  "hasSourceExtension name =
     (suffix ''.js'' name \<or> suffix ''.jsx'' name \<or> suffix ''.ts'' name \<or> suffix ''.tsx'' name)"

text \<open>\<open>content.includes('gql`') || content.includes('graphql`')\<close>\<close>

definition hasGraphQLTag :: "string \<Rightarrow> bool" where
  "hasGraphQLTag content = (sublist ''gql`'' content \<or> sublist ''graphql`'' content)"

text \<open>
  \<open>processDirectory\<close>, on the entries that \<open>readdir(currentPath)\<close> returned; \<open>files\<close> is the
  array that the closure appends to.
\<close>

fun processDirectory :: "env \<Rightarrow> string \<Rightarrow> dirent list \<Rightarrow> string list \<Rightarrow> js_error + string list" where
  "processDirectory env currentPath [] files = Inr files"
| "processDirectory env currentPath (Directory name entries # rest) files =
     (case processDirectory env (path_join env currentPath name) entries files of
        Inl e \<Rightarrow> Inl e
      | Inr files' \<Rightarrow> processDirectory env currentPath rest files')"
| "processDirectory env currentPath (UnreadableDirectory name e # rest) files = Inl e"
| "processDirectory env currentPath (File name readResult # rest) files =
     (if hasSourceExtension name then
        (case readResult of
           Inl e \<Rightarrow> Inl e
         | Inr content \<Rightarrow>
             processDirectory env currentPath rest
               (if hasGraphQLTag content then files @ [path_join env currentPath name] else files))
      else processDirectory env currentPath rest files)"
| "processDirectory env currentPath (Other name # rest) files =
     processDirectory env currentPath rest files"

text \<open>\<open>findGraphQLFiles(dirPath)\<close>; \<open>listing\<close> is the outcome of \<open>readdir(dirPath)\<close>.\<close>

definition findGraphQLFiles :: "env \<Rightarrow> string \<Rightarrow> js_error + dirent list \<Rightarrow> js_error + string list" where
  "findGraphQLFiles env dirPath listing =
     (case listing of Inl e \<Rightarrow> Inl e | Inr entries \<Rightarrow> processDirectory env dirPath entries [])"

text \<open>
  For stating what the scanner returns: every regular file below a directory, in the order of
  the listing, with its full path, its name and what reading it gives.
\<close>

fun treeFiles :: "env \<Rightarrow> string \<Rightarrow> dirent list \<Rightarrow> (string \<times> string \<times> (js_error + string)) list" where
  "treeFiles env currentPath [] = []"
| "treeFiles env currentPath (Directory name entries # rest) =
     treeFiles env (path_join env currentPath name) entries @ treeFiles env currentPath rest"
| "treeFiles env currentPath (File name readResult # rest) =
     (path_join env currentPath name, name, readResult) # treeFiles env currentPath rest"
| "treeFiles env currentPath (UnreadableDirectory name e # rest) = treeFiles env currentPath rest"
| "treeFiles env currentPath (Other name # rest) = treeFiles env currentPath rest"

fun qualifies :: "string \<times> string \<times> (js_error + string) \<Rightarrow> bool" where
  "qualifies (fullPath, name, Inr content) = (hasSourceExtension name \<and> hasGraphQLTag content)"
| "qualifies (fullPath, name, Inl e) = False"

text \<open>Every directory can be listed and every file with a source extension can be read.\<close>

fun scanReadable :: "dirent list \<Rightarrow> bool" where
  "scanReadable [] = True"
| "scanReadable (Directory name entries # rest) = (scanReadable entries \<and> scanReadable rest)"
| "scanReadable (UnreadableDirectory name e # rest) = False"
| "scanReadable (File name readResult # rest) =
     ((hasSourceExtension name \<longrightarrow> \<not> isl readResult) \<and> scanReadable rest)"
| "scanReadable (Other name # rest) = scanReadable rest"

section \<open>Grouper\<close>

text \<open>
  A \<open>Map\<close> with string keys, as the list of its entries in insertion order.  \<open>set\<close> on a
  present key keeps the key's position.
\<close>

type_synonym 'v jsmap = "(string \<times> 'v) list"

definition map_has :: "'v jsmap \<Rightarrow> string \<Rightarrow> bool" where
  "map_has m k = (map_of m k \<noteq> None)"

definition map_set :: "'v jsmap \<Rightarrow> string \<Rightarrow> 'v \<Rightarrow> 'v jsmap" where
  "map_set m k v =
     (if map_has m k then map (\<lambda>(k', v'). if k' = k then (k', v) else (k', v')) m
      else m @ [(k, v)])"

text \<open>\<open>m.get(k).push(x)\<close>: the array stored under \<open>k\<close> grows in place.\<close>

definition map_push :: "'a list jsmap \<Rightarrow> string \<Rightarrow> 'a \<Rightarrow> 'a list jsmap" where
  "map_push m k x = map (\<lambda>(k', v'). if k' = k then (k', v' @ [x]) else (k', v')) m"

text \<open>\<open>path.relative(pagesPath, file).split(path.sep)[0]\<close>\<close>

definition topLevelFolder :: "env \<Rightarrow> string \<Rightarrow> string \<Rightarrow> string" where
  "topLevelFolder env pagesPath file =
     (case splitOn (path_sep env) (path_relative env pagesPath file) of
        [] \<Rightarrow> ''undefined''
      | segment # _ \<Rightarrow> segment)"

fun groupLoop :: "env \<Rightarrow> string \<Rightarrow> string list \<Rightarrow> string list jsmap \<Rightarrow> string list jsmap" where
  "groupLoop env pagesPath [] groupedFiles = groupedFiles"
| "groupLoop env pagesPath (file # files) groupedFiles =
     (let folder = topLevelFolder env pagesPath file;
          groupedFiles1 =
            (if \<not> map_has groupedFiles folder then map_set groupedFiles folder [] else groupedFiles)
      in groupLoop env pagesPath files (map_push groupedFiles1 folder file))"

text \<open>
  The own properties of an object are enumerated with the array indices first, in ascending
  numeric order, and then the other names in the order of their creation.  An array index is
  the canonical decimal writing of an integer below \<open>2^32 - 1\<close>.
\<close>

definition isDigit :: "char \<Rightarrow> bool" where
  "isDigit c = (c \<in> set ''0123456789'')"

definition decimalValue :: "string \<Rightarrow> nat" where
  "decimalValue s = foldl (\<lambda>n c. 10 * n + (of_char c - 48)) 0 s"

definition isArrayIndex :: "string \<Rightarrow> bool" where
  "isArrayIndex s =
     (s \<noteq> [] \<and> list_all isDigit s \<and> (s = ''0'' \<or> hd s \<noteq> CHR ''0'') \<and> decimalValue s < 4294967295)"

text \<open>\<open>Object.entries(Object.fromEntries(m))\<close> for a \<open>Map\<close> \<open>m\<close>.\<close>

definition Object_fromEntries :: "'v jsmap \<Rightarrow> (string \<times> 'v) list" where
  "Object_fromEntries m =
     sort_key (\<lambda>e. decimalValue (fst e)) (filter (\<lambda>e. isArrayIndex (fst e)) m)
     @ filter (\<lambda>e. \<not> isArrayIndex (fst e)) m"

text \<open>\<open>groupFilesByPagesFolder(files, pagesPath)\<close>; the result is given by its entries.\<close>

definition groupFilesByPagesFolder :: "env \<Rightarrow> string list \<Rightarrow> string \<Rightarrow> (string \<times> string list) list" where
  "groupFilesByPagesFolder env files pagesPath =
     Object_fromEntries (groupLoop env pagesPath files [])"

text \<open>Used in the statements about the Grouper: one step of the loop, and a grouping whose
  keys are distinct and whose groups are non-empty and hold files of their own key only.\<close>

definition groupStep :: "env \<Rightarrow> string \<Rightarrow> string list jsmap \<Rightarrow> string \<Rightarrow> string list jsmap" where
  "groupStep env pagesPath m file =
     (let folder = topLevelFolder env pagesPath file
      in map_push (if \<not> map_has m folder then map_set m folder [] else m) folder file)"

definition wellGrouped :: "env \<Rightarrow> string \<Rightarrow> (string \<times> string list) list \<Rightarrow> bool" where
  "wellGrouped env pagesPath g \<longleftrightarrow>
     distinct (map fst g) \<and>
     (\<forall>(k, fs) \<in> set g. fs \<noteq> [] \<and> (\<forall>f \<in> set fs. topLevelFolder env pagesPath f = k))"

section \<open>Remote Analysis Client (pipeline over grouped files)\<close>

text \<open>
  The class \<open>OpenRouterAnalyzer\<close> of the grouped pipeline.  The key comes from the process
  environment and may be missing, in which case the header reads \<open>Bearer undefined\<close>.
\<close>

record analyzer =
  apiKey :: "string option"
  model :: string

definition newAnalyzer :: "string option \<Rightarrow> string option \<Rightarrow> analyzer" where
  "newAnalyzer key m =
     \<lparr>apiKey = key,
      model = (case m of None \<Rightarrow> ''google/gemini-2.0-flash-thinking-exp:free'' | Some x \<Rightarrow> x)\<rparr>"

definition bearer :: "analyzer \<Rightarrow> string" where
  "bearer an = ''Bearer '' @ (case apiKey an of None \<Rightarrow> ''undefined'' | Some k \<Rightarrow> k)"

fun isFetch :: "event \<Rightarrow> bool" where
  "isFetch (Fetch r) = True"
| "isFetch e = False"


fun isWriteFile :: "event \<Rightarrow> bool" where
  "isWriteFile (WriteFile f d) = True"
| "isWriteFile e = False"

definition fetchCount :: "event list \<Rightarrow> nat" where
  "fetchCount tr = length (filter isFetch tr)"

text \<open>
  \<open>generateContent(prompt)\<close>: the events so far, extended by the request, and either the
  thrown error or \<open>data\<close>, the parsed body.  The object that the code returns only wraps
  \<open>data\<close>: its \<open>text()\<close> is \<open>response_text data\<close>.  When the status is not successful this
  copy reads the body to print it before it throws.
\<close>

definition generateContent ::
  "env \<Rightarrow> analyzer \<Rightarrow> event list \<Rightarrow> string \<Rightarrow> event list \<times> (js_error + jsval)" where
  "generateContent env an tr p =
     (let req = \<lparr>authorization = bearer an, requestModel = model an, temperature = 0, prompt = p\<rparr>
      in (tr @ [Fetch req],
          case fetch env (fetchCount tr) req of
            Inl e \<Rightarrow> Inl e
          | Inr response \<Rightarrow>
              if \<not> ok response then
                (case body response of
                   Inl e \<Rightarrow> Inl e
                 | Inr text \<Rightarrow> Inl (Error (''API call failed: '' @ statusText response)))
              else
                (case body response of
                   Inl e \<Rightarrow> Inl e
                 | Inr text \<Rightarrow> JSON_parse env text)))"

text \<open>\<open>data.choices[0].message.content\<close>\<close>

definition response_text :: "jsval \<Rightarrow> js_error + jsval" where
  "response_text data =
     andThen (getProp data ''choices'') (\<lambda>choices.
     andThen (getProp choices ''0'') (\<lambda>choice.
     andThen (getProp choice ''message'') (\<lambda>msg.
     getProp msg ''content'')))"

text \<open>
  The two \<open>replace\<close> calls on the reply: a method call on \<open>undefined\<close> or \<open>null\<close> and a
  call of a missing method both throw.  \<open>receiver\<close> is the name of the variable whose
  \<open>text()\<close> is cleaned (\<open>response\<close>, or \<open>pagesResponse\<close> in \<open>analyzePages\<close>), which the
  message of the second error quotes.
\<close>

fun cleanText :: "string \<Rightarrow> jsval \<Rightarrow> js_error + string" where
  "cleanText receiver (Str s) = Inr (cleanedResponse s)"
| "cleanText receiver Undefined = Inl (cannotRead ''undefined'' ''replace'')"
| "cleanText receiver Null = Inl (cannotRead ''null'' ''replace'')"
| "cleanText receiver v = Inl (notAFunction (receiver @ ''.text(...).replace''))"

text \<open>
  \<open>x > 0\<close>.  Strings and arrays convert through \<open>stringGt0\<close> (an array first joins its
  elements, which can throw); \<open>undefined\<close> converts to \<open>NaN\<close>, \<open>null\<close> to \<open>0\<close>, an object to
  \<open>NaN\<close> unless it hides \<open>toString\<close>.
\<close>

fun gt0 :: "env \<Rightarrow> jsval \<Rightarrow> js_error + bool" where
  "gt0 env Undefined = Inr False"
| "gt0 env Null = Inr False"
| "gt0 env (Bool b) = Inr b"
| "gt0 env (Num n) = Inr (numGt0 n)"
| "gt0 env (Str s) = Inr (stringGt0 env (Str s))"
| "gt0 env (Arr xs) = (if toStringOk (Arr xs) then Inr (stringGt0 env (Arr xs)) else Inl toPrimitiveError)"
| "gt0 env (Obj kvs) = (if toStringOk (Obj kvs) then Inr False else Inl toPrimitiveError)"

text \<open>\<open>ops.forEach(op => console.log(`   ... ${op.name}`))\<close>\<close>

fun logNames :: "jsval list \<Rightarrow> js_error + unit" where
  "logNames [] = Inr ()"
| "logNames (operation # rest) =
     (case getProp operation ''name'' of
        Inl e \<Rightarrow> Inl e
      | Inr n \<Rightarrow> if toStringOk n then logNames rest else Inl toPrimitiveError)"

fun forEachLog :: "string \<Rightarrow> jsval \<Rightarrow> js_error + unit" where
  "forEachLog field (Arr xs) = logNames xs"
| "forEachLog field Undefined = Inl (cannotRead ''undefined'' ''forEach'')"
| "forEachLog field Null = Inl (cannotRead ''null'' ''forEach'')"
| "forEachLog field v = Inl (notAFunction (''analysis.'' @ field @ ''.forEach''))"

text \<open>\<open>if (analysis.field.length > 0) { ...; analysis.field.forEach(...) }\<close>\<close>

definition logOperations :: "env \<Rightarrow> jsval \<Rightarrow> string \<Rightarrow> js_error + unit" where
  "logOperations env analysis field =
     andThen (getProp analysis field) (\<lambda>ops.
     andThen (getProp ops ''length'') (\<lambda>n.
     andThen (gt0 env n) (\<lambda>positive.
     if positive then forEachLog field ops else Inr ())))"

text \<open>\<open>analysis.field.length\<close>\<close>

definition fieldLength :: "jsval \<Rightarrow> string \<Rightarrow> js_error + jsval" where
  "fieldLength analysis field = andThen (getProp analysis field) (\<lambda>ops. getProp ops ''length'')"

text \<open>
  The body of the \<open>try\<close> block of \<open>analyzePageGraphQL\<close>, which is the same text in every copy
  of the class but for the expression that names the page: \<open>result\<close> is the outcome of
  \<open>generateContent\<close>, \<open>label\<close> the outcome of evaluating the page's name (\<open>pageName\<close>, or
  \<open>page.path\<close>), which is first converted to a string for the heading that is printed.
\<close>

definition tryBlock :: "env \<Rightarrow> js_error + jsval \<Rightarrow> js_error + jsval \<Rightarrow> js_error + analysis_result" where
  "tryBlock env result label =
     andThen result (\<lambda>data.
     andThen (response_text data) (\<lambda>text.
     andThen (cleanText ''response'' text) (\<lambda>cleaned.
     andThen (JSON_parse env cleaned) (\<lambda>analysis.
     andThen label (\<lambda>name.
     andThen (if toStringOk name then Inr () else Inl toPrimitiveError) (\<lambda>u.
     andThen (logOperations env analysis ''queries'') (\<lambda>u.
     andThen (logOperations env analysis ''mutations'') (\<lambda>u.
     andThen (fieldLength analysis ''queries'') (\<lambda>qc.
     andThen (fieldLength analysis ''mutations'') (\<lambda>mc.
     Inr (Success name analysis qc mc)))))))))))"

text \<open>\<open>getFilesContent(files)\<close>: a file that cannot be read is skipped.\<close>

fun readContents :: "env \<Rightarrow> string list \<Rightarrow> string list \<Rightarrow> string list" where
  "readContents env [] contents = contents"
| "readContents env (file # files) contents =
     (case readFile env file of
        Inl e \<Rightarrow> readContents env files contents
      | Inr content \<Rightarrow> readContents env files (contents @ [''FILE: '' @ file @ [newline] @ content]))"

definition getFilesContent :: "env \<Rightarrow> string list \<Rightarrow> string" where
  "getFilesContent env files = joinWith [newline, newline] (readContents env files [])"

definition graphqlPrompt1 :: string where
  \<open>graphqlPrompt1 = joinWith [newline]
     ['''',
      ''        Objective: Thoroughly identify and extract all GraphQL queries and mutations from the provided set of files that belong to a specific page component.'',
      '''',
      ''        Instructions:'',
      '''',
      ''        1. **Analyze the Files:** Examine all provided files that belong to this page component and its related functionality.'',
      '''',
      ''        2. **Scan for GraphQL Operations:** Within each file, meticulously search for GraphQL queries and mutations. Look for:'',
      ''            * **`gql` template literals**'',
      ''            * **`useQuery` and `useMutation` hooks**'',
      ''            * **GraphQL client methods**'',
      ''            * **Imported GraphQL documents**'',
      '''',
      ''        3. **Extract Operation Names:** For each identified GraphQL query and mutation, extract its name.'',
      '''',
      ''        4. **Format the Output:** Structure your findings as a JSON object with queries and mutations arrays.'',
      '''',
      ''        Page Component: '']\<close>

definition graphqlPrompt2 :: string where
  \<open>graphqlPrompt2 = joinWith [newline]
     ['''',
      '''',
      ''        Files to analyze:'',
      ''        '']\<close>

definition graphqlPrompt3 :: string where
  \<open>graphqlPrompt3 = joinWith [newline]
     ['''',
      '''',
      ''        Format the response as a JSON object with:'',
      ''        {'',
      ''            "queries": [{ "name": "QueryName" }],'',
      ''            "mutations": [{ "name": "MutationName" }]'',
      ''        }'',
      '''',
      ''        Context for each file follows:'',
      '''',
      ''        '']\<close>

definition graphqlPrompt :: "env \<Rightarrow> string list \<Rightarrow> string \<Rightarrow> string" where
  "graphqlPrompt env pageFiles pageName =
     graphqlPrompt1 @ pageName @ graphqlPrompt2 @ joinWith [newline] pageFiles @ graphqlPrompt3
     @ getFilesContent env pageFiles"

text \<open>
  \<open>analyzePageGraphQL(pageFiles, pageName)\<close> of the grouped pipeline.  The prompt is built
  before the \<open>try\<close> block from an array of strings and a string, which cannot throw; every
  later statement is inside the block.
\<close>

definition analyzePageGraphQL ::
  "env \<Rightarrow> analyzer \<Rightarrow> event list \<Rightarrow> string list \<Rightarrow> string \<Rightarrow> event list \<times> analysis_result" where
  "analyzePageGraphQL env an tr pageFiles pageName =
     (let (tr', result) = generateContent env an tr (graphqlPrompt env pageFiles pageName)
      in (tr',
          case tryBlock env result (Inr (Str pageName)) of
            Inr r \<Rightarrow> r
          | Inl error \<Rightarrow> Failure (Str pageName) (message error)))"

section \<open>Orchestrator (pipeline over grouped files)\<close>

text \<open>\<open>xs.indexOf(x)\<close> on an array of strings.\<close>

fun indexOf :: "'a list \<Rightarrow> 'a \<Rightarrow> int" where
  "indexOf [] x = - 1"
| "indexOf (y # ys) x =
     (if y = x then 0 else (let i = indexOf ys x in if i < 0 then - 1 else i + 1))"

text \<open>
  The loop of \<open>analyzeGroupedFiles\<close> over \<open>Object.entries(groupedFiles)\<close>; the object is given
  by its entries, the second list is what remains to visit.
\<close>

fun groupsLoop ::
  "env \<Rightarrow> analyzer \<Rightarrow> (string \<times> string list) list \<Rightarrow> (string \<times> string list) list \<Rightarrow>
   event list \<Rightarrow> analysis_result list \<Rightarrow> event list \<times> analysis_result list" where
  "groupsLoop env an groupedFiles [] tr results = (tr, results)"
| "groupsLoop env an groupedFiles ((pageName, files) # rest) tr results =
     (let (tr1, analysis) = analyzePageGraphQL env an tr files pageName;
          results1 = results @ [analysis];
          keys = map fst groupedFiles;
          tr2 = (if indexOf keys pageName < int (length keys) - 1 then tr1 @ [Delay 10000] else tr1)
      in groupsLoop env an groupedFiles rest tr2 results1)"

definition analyzeGroupedFiles ::
  "env \<Rightarrow> analyzer \<Rightarrow> event list \<Rightarrow> (string \<times> string list) list \<Rightarrow> event list \<times> analysis_result list" where
  "analyzeGroupedFiles env an tr groupedFiles = groupsLoop env an groupedFiles groupedFiles tr []"

text \<open>
  \<open>scanForGraphQLTags(folderPath, pagesComponentsPath)\<close>: the grouped object when the second
  argument is truthy, the array of files otherwise; an error of the scan is thrown again.
\<close>

datatype scan_result =
    Grouped "(string \<times> string list) list"
  | Files "string list"

definition truthy :: "string option \<Rightarrow> bool" where
  "truthy p = (case p of None \<Rightarrow> False | Some s \<Rightarrow> s \<noteq> [])"

definition scanForGraphQLTags ::
  "env \<Rightarrow> string \<Rightarrow> js_error + dirent list \<Rightarrow> string option \<Rightarrow> js_error + scan_result" where
  "scanForGraphQLTags env folderPath listing pagesComponentsPath =
     (case findGraphQLFiles env folderPath listing of
        Inl e \<Rightarrow> Inl e
      | Inr files \<Rightarrow>
          if truthy pagesComponentsPath
          then Inr (Grouped (groupFilesByPagesFolder env files (the pagesComponentsPath)))
          else Inr (Files files))"

text \<open>\<open>new Date().toISOString().replace(/[:.]/g, '-')\<close>\<close>

definition timestamp :: "env \<Rightarrow> string" where
  "timestamp env = map (\<lambda>c. if c = CHR '':'' \<or> c = CHR ''.'' then CHR ''-'' else c) (toISOString env)"

text \<open>
  \<open>main(filePath, model)\<close>; \<open>listing\<close> is what listing the repository directory gives.  The
  result is the events of the run and the error that rejects the promise, if any.  An array
  in place of the grouped object (which \<open>main\<close> cannot get, its second argument to the scan
  being a non-empty string) would be enumerated by index and make the first per-group call
  throw on \<open>pageFiles.join\<close>.
\<close>

definition outputFileName :: "env \<Rightarrow> string" where
  "outputFileName env = ''analysis-'' @ timestamp env @ ''.json''"

definition saveResults :: "env \<Rightarrow> event list \<Rightarrow> analysis_result list \<Rightarrow> event list \<times> (js_error + unit)" where
  "saveResults env tr analysisResults =
     (let outputFile = outputFileName env;
          text = JSON_stringify env analysisResults
      in (tr @ [WriteFile outputFile text],
          case writeFile env outputFile text of None \<Rightarrow> Inr () | Some e \<Rightarrow> Inl e))"

definition repoPathOf :: "string \<Rightarrow> string" where
  "repoPathOf filePath = ''./repo_to_analyze/'' @ filePath"

definition pagesPathOf :: "string \<Rightarrow> string" where
  "pagesPathOf repoPath = repoPath @ ''/src/components/pages''"

definition main ::
  "env \<Rightarrow> js_error + dirent list \<Rightarrow> string \<Rightarrow> string option \<Rightarrow> event list \<times> (js_error + unit)" where
  "main env listing filePath m =
     (let an = newAnalyzer (OPENROUTER_API_KEY env) m;
          repoPath = repoPathOf filePath
      in case scanForGraphQLTags env repoPath listing (Some (pagesPathOf repoPath)) of
           Inl e \<Rightarrow> ([], Inl e)
         | Inr (Grouped groupedFiles) \<Rightarrow>
             (let (tr, analysisResults) = analyzeGroupedFiles env an [] groupedFiles
              in saveResults env tr analysisResults)
         | Inr (Files files) \<Rightarrow>
             (if files = [] then saveResults env [] []
              else ([], Inl (notAFunction ''pageFiles.join''))))"

section \<open>The pipeline over a page inventory (\<open>analyzer.js\<close>)\<close>

text \<open>
  This copy of the class asks first for the pages and then, page by page, for the operations
  of each.  Its \<open>generateContent\<close> differs from the one above in the temperature and in not
  reading the body of an unsuccessful response.  A third copy of the class repeats this one
  with other prompt texts and temperature 0.
\<close>

definition analyzer_newAnalyzer :: "string option \<Rightarrow> string option \<Rightarrow> analyzer" where
  "analyzer_newAnalyzer key m =
     \<lparr>apiKey = key, model = (case m of None \<Rightarrow> ''anthropic/claude-3-opus'' | Some x \<Rightarrow> x)\<rparr>"

definition analyzer_generateContent ::
  "env \<Rightarrow> analyzer \<Rightarrow> event list \<Rightarrow> string \<Rightarrow> event list \<times> (js_error + jsval)" where
  "analyzer_generateContent env an tr p =
     (let req = \<lparr>authorization = bearer an, requestModel = model an, temperature = 1 / 10, prompt = p\<rparr>
      in (tr @ [Fetch req],
          case fetch env (fetchCount tr) req of
            Inl e \<Rightarrow> Inl e
          | Inr response \<Rightarrow>
              if \<not> ok response then Inl (Error (''API call failed: '' @ statusText response))
              else
                (case body response of
                   Inl e \<Rightarrow> Inl e
                 | Inr text \<Rightarrow> JSON_parse env text)))"

definition pagesPrompt1 :: string where
  \<open>pagesPrompt1 = joinWith [newline]
     ['''',
      ''            Given the following codebase context, identify and list every component that uses GraphQL queries or mutations. For each component, extract the following details:'',
      '''',
      ''            path: the route or file path where the component is accessible.'',
      ''            component: the file name where the component is defined.'',
      ''            description: a short explanation of what the component does.'',
      ''            Guidelines:'',
      '''',
      ''            Analyze the entire file content to ensure every component using GraphQL queries or mutations is included.'',
      ''            Format your response exclusively as a JSON array. Each element in the array must be a JSON object with the keys "path", "component", and "description".'',
      ''            Do not include any text or commentary outside the JSON array.'',
      ''            Do not use any markdown syntax or additional formatting'' @ [CHR 0xE2, CHR 0x80, CHR 0x94] @ ''return only valid JSON.'',
      ''            If no components are found, return an empty JSON array.'',
      ''            Context:'',
      ''            '']\<close>

definition pageGraphqlPrompt1 :: string where
  \<open>pageGraphqlPrompt1 = joinWith [newline]
     ['''',
      ''        Analyze the following page in the codebase and identify the GraphQL queries and mutations used by it.'',
      ''        Component: '']\<close>

definition pageGraphqlPrompt2 :: string where
  \<open>pageGraphqlPrompt2 = joinWith [newline]
     ['''',
      '''',
      ''        Format the response as a JSON object with:'',
      ''        - queries: array of objects containing { name }'',
      ''        - mutations: array of objects containing { name }'',
      '''',
      ''        Only include actual GraphQL operations found in the code. Look for gql tags, useQuery, useMutation, etc.'',
      '''',
      ''        Context:'',
      ''        '']\<close>

definition pageGraphqlPrompt3 :: string where
  \<open>pageGraphqlPrompt3 = joinWith [newline]
     ['''',
      '''',
      ''        Response should be valid JSON only, no additional text.'']\<close>

definition pageGraphqlPrompt :: "string \<Rightarrow> string \<Rightarrow> string" where
  "pageGraphqlPrompt component context =
     pageGraphqlPrompt1 @ component @ pageGraphqlPrompt2 @ context @ pageGraphqlPrompt3"

text \<open>A template literal's \<open>${v}\<close>: the inserted text, or the error of the conversion.\<close>

definition interpolate :: "env \<Rightarrow> jsval \<Rightarrow> js_error + string" where
  "interpolate env v = (if toStringOk v then Inr (ToString env v) else Inl toPrimitiveError)"

text \<open>
  \<open>analyzePageGraphQL(page, context)\<close> of \<open>analyzer.js\<close>.  The prompt is built before the
  \<open>try\<close> block and reads \<open>page.component\<close>; the handler prints \<open>page.path\<close> before it
  returns the record, so both can throw out of the function.
\<close>

definition analyzer_analyzePageGraphQL ::
  "env \<Rightarrow> analyzer \<Rightarrow> event list \<Rightarrow> jsval \<Rightarrow> string \<Rightarrow> event list \<times> (js_error + analysis_result)" where
  "analyzer_analyzePageGraphQL env an tr page context =
     (case andThen (getProp page ''component'') (interpolate env) of
        Inl e \<Rightarrow> (tr, Inl e)
      | Inr component \<Rightarrow>
          (let (tr', result) = analyzer_generateContent env an tr (pageGraphqlPrompt component context)
           in (tr',
               case tryBlock env result (getProp page ''path'') of
                 Inr r \<Rightarrow> Inr r
               | Inl error \<Rightarrow>
                   andThen (getProp page ''path'') (\<lambda>path.
                   andThen (interpolate env path) (\<lambda>shown.
                   Inr (Failure path (message error)))))))"

text \<open>The callback of \<open>pages.forEach\<close> in \<open>analyzePages\<close>, which prints three fields.\<close>

definition logPage :: "env \<Rightarrow> jsval \<Rightarrow> js_error + unit" where
  "logPage env page =
     andThen (andThen (getProp page ''path'') (interpolate env)) (\<lambda>p.
     andThen (andThen (getProp page ''component'') (interpolate env)) (\<lambda>c.
     andThen (andThen (getProp page ''description'') (interpolate env)) (\<lambda>d.
     Inr ())))"

fun logPages :: "env \<Rightarrow> jsval list \<Rightarrow> js_error + unit" where
  "logPages env [] = Inr ()"
| "logPages env (page # rest) = andThen (logPage env page) (\<lambda>u. logPages env rest)"

text \<open>\<open>pages.forEach(...)\<close>; when it returns, \<open>pages\<close> is an array, here given back.\<close>

fun forEachPage :: "env \<Rightarrow> jsval \<Rightarrow> js_error + jsval list" where
  "forEachPage env (Arr ps) = andThen (logPages env ps) (\<lambda>u. Inr ps)"
| "forEachPage env Undefined = Inl (cannotRead ''undefined'' ''forEach'')"
| "forEachPage env Null = Inl (cannotRead ''null'' ''forEach'')"
| "forEachPage env v = Inl (notAFunction ''pages.forEach'')"

text \<open>
  \<open>pages.indexOf(page)\<close> for the page at index \<open>i\<close>.  The search compares with \<open>===\<close>:
  every parsed object or array is equal to itself only, a primitive value is equal to any
  equal primitive value, and \<open>NaN\<close> is equal to nothing.
\<close>

fun isPrimitive :: "jsval \<Rightarrow> bool" where
  "isPrimitive (Arr xs) = False"
| "isPrimitive (Obj kvs) = False"
| "isPrimitive v = True"

definition pagesIndexOf :: "jsval list \<Rightarrow> nat \<Rightarrow> int" where
  "pagesIndexOf pages i =
     (if isPrimitive (pages ! i)
      then (if pages ! i = Num NaN then - 1 else indexOf pages (pages ! i))
      else int i)"

text \<open>
  The loop of \<open>analyzePages\<close>: \<open>rest\<close> is what remains of \<open>pages\<close>, of which \<open>i\<close> elements
  were visited.
\<close>

fun pagesLoop ::
  "env \<Rightarrow> analyzer \<Rightarrow> jsval list \<Rightarrow> jsval list \<Rightarrow> nat \<Rightarrow> string \<Rightarrow> event list \<Rightarrow> analysis_result list \<Rightarrow>
   event list \<times> (js_error + analysis_result list)" where
  "pagesLoop env an pages [] i fileContent tr analysisResults = (tr, Inr analysisResults)"
| "pagesLoop env an pages (page # rest) i fileContent tr analysisResults =
     (case analyzer_analyzePageGraphQL env an tr page fileContent of
        (tr1, Inl e) \<Rightarrow> (tr1, Inl e)
      | (tr1, Inr analysis) \<Rightarrow>
          pagesLoop env an pages rest (Suc i) fileContent
            (if pagesIndexOf pages i < int (length pages) - 1 then tr1 @ [Delay 60000] else tr1)
            (analysisResults @ [analysis]))"

text \<open>
  \<open>analyzePages(fileContent)\<close>: the handler of its \<open>try\<close> block prints the error and
  throws it again.  \<open>pagesInventory\<close> is the part between the first call and the loop: the
  reply is cleaned and parsed and every page is printed.  The result is the pair
  \<open>{pages, analysisResults}\<close>.
\<close>

definition pagesInventory :: "env \<Rightarrow> js_error + jsval \<Rightarrow> js_error + jsval list" where
  "pagesInventory env pagesResult =
     andThen pagesResult (\<lambda>data.
     andThen (response_text data) (\<lambda>text.
     andThen (cleanText ''pagesResponse'' text) (\<lambda>cleaned.
     andThen (JSON_parse env cleaned) (\<lambda>pages.
     forEachPage env pages))))"

definition analyzer_analyzePages ::
  "env \<Rightarrow> analyzer \<Rightarrow> event list \<Rightarrow> string \<Rightarrow> event list \<times> (js_error + jsval list \<times> analysis_result list)" where
  "analyzer_analyzePages env an tr fileContent =
     (let (tr1, pagesResult) = analyzer_generateContent env an tr (pagesPrompt1 @ fileContent)
      in case pagesInventory env pagesResult of
           Inl e \<Rightarrow> (tr1, Inl e)
         | Inr pages \<Rightarrow>
             (case pagesLoop env an pages pages 0 fileContent (tr1 @ [Delay 60000]) [] of
                (tr2, Inl e) \<Rightarrow> (tr2, Inl e)
              | (tr2, Inr analysisResults) \<Rightarrow> (tr2, Inr (pages, analysisResults))))"

section \<open>Notions used in the statements\<close>

text \<open>The value of \<open>response.text()\<close> for the outcome of a \<open>generateContent\<close> call.\<close>

definition replyOf :: "event list \<times> (js_error + jsval) \<Rightarrow> js_error + jsval" where
  "replyOf outcome = andThen (snd outcome) response_text"

text \<open>The request that \<open>generateContent\<close> sends for a prompt, in the two copies.\<close>

definition requestFor :: "analyzer \<Rightarrow> string \<Rightarrow> request" where
  "requestFor an p = \<lparr>authorization = bearer an, requestModel = model an, temperature = 0, prompt = p\<rparr>"

definition analyzer_requestFor :: "analyzer \<Rightarrow> string \<Rightarrow> request" where
  "analyzer_requestFor an p =
     \<lparr>authorization = bearer an, requestModel = model an, temperature = 1 / 10, prompt = p\<rparr>"

text \<open>
  An element of \<open>queries\<close> or \<open>mutations\<close> whose \<open>name\<close> can be read and printed: it is not
  \<open>null\<close>, and its name is not an object that hides \<open>toString\<close>.
\<close>

definition printableName :: "jsval \<Rightarrow> bool" where
  "printableName operation =
     (case getProp operation ''name'' of Inl e \<Rightarrow> False | Inr n \<Rightarrow> toStringOk n)"

text \<open>A value without the field: reading it throws or gives \<open>undefined\<close> or \<open>null\<close>.\<close>

definition lacksField :: "jsval \<Rightarrow> string \<Rightarrow> bool" where
  "lacksField v field =
     (case getProp v field of Inl e \<Rightarrow> True | Inr x \<Rightarrow> x = Undefined \<or> x = Null)"

text \<open>
  The events of the loop over the groups as the sequencing contract has them: one request
  for each group, in order, and a delay of ten seconds between two requests.
\<close>

fun groupEvents :: "env \<Rightarrow> analyzer \<Rightarrow> (string \<times> string list) list \<Rightarrow> event list" where
  "groupEvents env an [] = []"
| "groupEvents env an [(pageName, files)] = [Fetch (requestFor an (graphqlPrompt env files pageName))]"
| "groupEvents env an ((pageName, files) # g # gs) =
     Fetch (requestFor an (graphqlPrompt env files pageName)) # Delay 10000 # groupEvents env an (g # gs)"

text \<open>
  The order of discovery of the group keys: the order in which the keys are first met in
  the list of files, which is the insertion order of the \<open>Map\<close> that the Grouper fills.
\<close>

fun firstSeen :: "'a list \<Rightarrow> 'a list" where
  "firstSeen [] = []"
| "firstSeen (x # xs) = x # filter (\<lambda>y. y \<noteq> x) (firstSeen xs)"






section \<open>Example inputs\<close>

text \<open>
  A small environment on which the definitions can be run.  Its \<open>path_join\<close> and
  \<open>path_relative\<close> are those of the POSIX \<open>path\<close> module on relative paths without
  \<open>..\<close> segments: both drop empty and \<open>.\<close> segments, and the relative path steps up
  from what remains of the first path after the common segments.  The remote service
  answers every request with the same reply text; \<open>JSON_parse\<close> knows the texts of
  \<open>exampleParse\<close> and rejects every other text.
\<close>

definition pathSegments :: "string \<Rightarrow> string list" where
  "pathSegments p = filter (\<lambda>s. s \<noteq> [] \<and> s \<noteq> ''.'') (splitOn CHR ''/'' p)"

fun dropCommon :: "string list \<Rightarrow> string list \<Rightarrow> string list \<times> string list" where
  "dropCommon (x # xs) (y # ys) = (if x = y then dropCommon xs ys else (x # xs, y # ys))"
| "dropCommon xs ys = (xs, ys)"

definition exampleJoin :: "string \<Rightarrow> string \<Rightarrow> string" where
  "exampleJoin a b = joinWith ''/'' (pathSegments (a @ ''/'' @ b))"

definition exampleRelative :: "string \<Rightarrow> string \<Rightarrow> string" where
  "exampleRelative from to =
     (case dropCommon (pathSegments from) (pathSegments to) of
        (up, down) \<Rightarrow> joinWith ''/'' (map (\<lambda>s. ''..'') up @ down))"

definition exampleReply :: string where
  \<open>exampleReply = ''{"queries":[{"name":"GetHome"}],"mutations":[]}''\<close>

definition exampleAnalysis :: jsval where
  "exampleAnalysis = Obj [(''queries'', Arr [Obj [(''name'', Str ''GetHome'')]]), (''mutations'', Arr [])]"

definition exampleData :: "string \<Rightarrow> jsval" where
  "exampleData reply =
     Obj [(''choices'', Arr [Obj [(''message'', Obj [(''role'', Str ''assistant''), (''content'', Str reply)])]])]"

definition exampleParse :: "string \<Rightarrow> string \<Rightarrow> js_error + jsval" where
  \<open>exampleParse reply text =
     (if text = ''body'' then Inr (exampleData reply)
      else if text = exampleReply then Inr exampleAnalysis
      else if text = ''{"queries":{},"mutations":{}}'' then Inr (Obj [(''queries'', Obj []), (''mutations'', Obj [])])
      else if text = ''{"queries":[null],"mutations":[]}'' then Inr (Obj [(''queries'', Arr [Null]), (''mutations'', Arr [])])
      else if text = ''{}'' then Inr (Obj [])
      else Inl (SyntaxError ''Unexpected token''))\<close>

definition exampleEnv :: "string \<Rightarrow> env" where
  "exampleEnv reply =
     \<lparr>fetch = (\<lambda>n r. Inr \<lparr>ok = True, statusText = ''OK'', body = Inr ''body''\<rparr>),
      readFile = (\<lambda>p. Inl (SystemError ''ENOENT'')),
      writeFile = (\<lambda>f d. None),
      toISOString = ''2025-01-02T03:04:05.678Z'',
      OPENROUTER_API_KEY = Some ''key'',
      JSON_parse = exampleParse reply,
      JSON_stringify = (\<lambda>rs. ''[]''),
      stringGt0 = (\<lambda>v. False),
      ToString = (\<lambda>v. []),
      path_join = exampleJoin,
      path_relative = exampleRelative,
      path_sep = CHR ''/''\<rparr>"

definition exampleTree :: "dirent list" where
  "exampleTree =
     [Directory ''home'' [File ''Home.jsx'' (Inr ''const q = gql` query GetHome { id } `''),
                          File ''notes.txt'' (Inl (SystemError ''EACCES''))],
      Other ''link'',
      Directory ''about'' [File ''About.jsx'' (Inr ''export default 1'')]]"

definition examplePage :: jsval where
  "examplePage =
     Obj [(''path'', Str ''/home''), (''component'', Str ''Home.jsx''), (''description'', Str ''The home page'')]"

definition exampleGroups :: "(string \<times> string list) list" where
  "exampleGroups =
     [(''404'', [''pages/404/index.js'']),
      (''home'', [''pages/home/Home.jsx'', ''pages/home/List.tsx'']),
      (''..'', [''lib/util.ts''])]"

definition exampleFiles :: "string list" where
  "exampleFiles =
     [''pages/home/Home.jsx'', ''lib/util.ts'', ''pages/404/index.js'', ''pages/home/List.tsx'']"


definition exampleAnalyzer :: analyzer where
  "exampleAnalyzer = newAnalyzer (Some ''key'') None"

text \<open>A service that refuses every request, and one that answers with a page of text.\<close>

definition refusingEnv :: env where
  \<open>refusingEnv =
     (exampleEnv [])\<lparr>fetch := (\<lambda>n r. Inr \<lparr>ok = False, statusText = ''Too Many Requests'',
                                         body = Inr ''{"error":"rate limited"}''\<rparr>)\<rparr>\<close>

definition garbledEnv :: env where
  "garbledEnv =
     (exampleEnv [])\<lparr>fetch := (\<lambda>n r. Inr \<lparr>ok = True, statusText = ''OK'', body = Inr ''Bad Gateway''\<rparr>)\<rparr>"

definition refusalReply :: string where
  "refusalReply = ''I cannot answer''"

definition nullQueryReply :: string where
  \<open>nullQueryReply = ''{"queries":[null],"mutations":[]}''\<close>

definition objectFieldsReply :: string where
  \<open>objectFieldsReply = ''{"queries":{},"mutations":{}}''\<close>

definition emptyObjectReply :: string where
  "emptyObjectReply = ''{}''"

text \<open>
  A service that answers the first request with an inventory of two pages and every later
  request with a refusal.
\<close>

definition aboutPage :: jsval where
  "aboutPage =
     Obj [(''path'', Str ''/about''), (''component'', Str ''About.jsx''), (''description'', Str ''The about page'')]"

definition inventoryReply :: string where
  \<open>inventoryReply =
     ''[{"path":"/home","component":"Home.jsx","description":"The home page"},''
     @ ''{"path":"/about","component":"About.jsx","description":"The about page"}]''\<close>

definition inventoryParse :: "string \<Rightarrow> js_error + jsval" where
  "inventoryParse text =
     (if text = ''inventory body'' then Inr (exampleData inventoryReply)
      else if text = inventoryReply then Inr (Arr [examplePage, aboutPage])
      else exampleParse refusalReply text)"

definition inventoryEnv :: env where
  "inventoryEnv =
     (exampleEnv refusalReply)
       \<lparr>fetch := (\<lambda>n r. Inr \<lparr>ok = True, statusText = ''OK'',
                              body = Inr (if n = 0 then ''inventory body'' else ''body'')\<rparr>),
        JSON_parse := inventoryParse\<rparr>"

section \<open>Reply post-processing\<close>

lemma replacePrefix_append: "replacePrefix lit (lit @ s) = s"
  by (simp add: replacePrefix_def)

lemma replaceSuffix_append: "replaceSuffix lit (s @ lit) = s"
  by (simp add: replaceSuffix_def suffix_def)

lemma cleanedResponse_fenced: "cleanedResponse (openingFence @ j @ closingFence) = j"
  by (simp add: cleanedResponse_def replacePrefix_append replaceSuffix_append)

text \<open>
  Claim C2.  For every text \<open>j\<close> (so for every valid JSON text), stripping the fences from
  \<open>"```json\n" + j + "\n```"\<close> gives back \<open>j\<close>, so parsing the stripped text gives what
  parsing \<open>j\<close> gives, whatever \<open>JSON.parse\<close> computes.
\<close>

theorem fenced_reply_parses_as_unfenced:
  "cleanedResponse (openingFence @ j @ closingFence) = j \<and>
   JSON_parse env (cleanedResponse (openingFence @ j @ closingFence)) = JSON_parse env j"
  by (simp add: cleanedResponse_fenced)

section \<open>File Scanner\<close>

lemma processDirectory_spec:
  "scanReadable entries \<Longrightarrow>
   processDirectory env currentPath entries files =
     Inr (files @ map fst (filter qualifies (treeFiles env currentPath entries)))"
proof (induction env currentPath entries files rule: processDirectory.induct)
  case (4 env currentPath name readResult rest files)
  then show ?case by (cases readResult) auto
qed auto

text \<open>
  Claim C1.  When the tree can be read, the scanner returns the full paths of exactly those
  regular files of the tree whose name ends in \<open>.js\<close>, \<open>.jsx\<close>, \<open>.ts\<close> or \<open>.tsx\<close> and whose
  content contains \<open>gql`\<close> or \<open>graphql`\<close>, one path for each such file and no other path; so
  their number is the number of qualifying files.
\<close>

theorem scanner_returns_exactly_the_qualifying_files:
  "scanReadable entries \<Longrightarrow>
   findGraphQLFiles env dirPath (Inr entries) =
     Inr (map fst (filter qualifies (treeFiles env dirPath entries)))"
  using processDirectory_spec [of entries env dirPath "[]"]
  by (simp add: findGraphQLFiles_def)

theorem scanner_returns_exactly_the_qualifying_files_witness:
  "scanReadable exampleTree \<and>
   findGraphQLFiles (exampleEnv []) ''pages'' (Inr exampleTree) = Inr [''pages/home/Home.jsx'']"
proof -
  have r: "scanReadable exampleTree"
    by code_simp
  have q: "map fst (filter qualifies (treeFiles (exampleEnv []) ''pages'' exampleTree)) = [''pages/home/Home.jsx'']"
    by code_simp
  show ?thesis
    using scanner_returns_exactly_the_qualifying_files [OF r, of "exampleEnv []" "''pages''"] r q
    by simp
qed

section \<open>Grouper\<close>

lemma map_fst_map_push: "map fst (map_push m k x) = map fst m"
  by (induction m) (auto simp: map_push_def)

lemma map_of_map_push:
  "map_of (map_push m k x) k' =
     (if k' = k then map_option (\<lambda>v. v @ [x]) (map_of m k) else map_of m k')"
  by (induction m) (auto simp: map_push_def)

lemma map_push_absent: "k \<notin> fst ` set m \<Longrightarrow> map_push m k x = m"
  by (induction m) (auto simp: map_push_def)

lemma map_push_append: "map_push (m @ n) k x = map_push m k x @ map_push n k x"
  by (simp add: map_push_def)

lemma map_has_iff: "map_has m k \<longleftrightarrow> k \<in> fst ` set m"
  by (simp add: map_has_def map_of_eq_None_iff)

lemma map_set_absent: "\<not> map_has m k \<Longrightarrow> map_set m k v = m @ [(k, v)]"
  by (simp add: map_set_def)

lemma groupLoop_Cons:
  "groupLoop env pagesPath (file # files) m = groupLoop env pagesPath files (groupStep env pagesPath m file)"
  by (simp add: groupStep_def Let_def)

lemma map_of_groupStep:
  "map_of (groupStep env pagesPath m file) k =
     (if k = topLevelFolder env pagesPath file
      then Some ((case map_of m k of None \<Rightarrow> [] | Some v \<Rightarrow> v) @ [file])
      else map_of m k)"
  by (auto simp: groupStep_def Let_def map_of_map_push map_set_absent map_has_def map_add_def
           split: option.splits)

lemma keys_groupStep:
  "map fst (groupStep env pagesPath m file) =
     (if map_has m (topLevelFolder env pagesPath file) then map fst m
      else map fst m @ [topLevelFolder env pagesPath file])"
  by (simp add: groupStep_def Let_def map_fst_map_push map_set_absent)

lemma distinct_groupStep:
  "distinct (map fst m) \<Longrightarrow> distinct (map fst (groupStep env pagesPath m file))"
  by (auto simp: keys_groupStep map_has_iff)

lemma distinct_groupLoop:
  "distinct (map fst m) \<Longrightarrow> distinct (map fst (groupLoop env pagesPath files m))"
proof (induction files arbitrary: m)
  case (Cons f fs)
  then show ?case unfolding groupLoop_Cons by (simp add: distinct_groupStep)
qed simp

lemma map_of_groupLoop:
  "map_of (groupLoop env pagesPath files m) k =
     (let mine = filter (\<lambda>f. topLevelFolder env pagesPath f = k) files
      in case map_of m k of
           Some v \<Rightarrow> Some (v @ mine)
         | None \<Rightarrow> if mine = [] then None else Some mine)"
proof (induction files arbitrary: m)
  case Nil
  then show ?case by (simp split: option.splits)
next
  case (Cons f fs)
  show ?case unfolding groupLoop_Cons Cons.IH
    by (auto simp: map_of_groupStep Let_def split: option.splits)
qed

lemma mset_concat_map_push:
  "distinct (map fst m) \<Longrightarrow> k \<in> fst ` set m \<Longrightarrow>
   mset (concat (map snd (map_push m k x))) = mset (concat (map snd m)) + {#x#}"
proof (induction m)
  case (Cons e m)
  obtain k' v' where e: "e = (k', v')" by (cases e)
  show ?case
  proof (cases "k' = k")
    case True
    with Cons.prems e have "k \<notin> fst ` set m" by auto
    then have "map_push m k x = m" by (rule map_push_absent)
    then have "map_push (e # m) k x = (k, v' @ [x]) # m"
      using True e by (simp add: map_push_def)
    then show ?thesis using e by simp
  next
    case False
    with Cons.prems e have "k \<in> fst ` set m" "distinct (map fst m)" by auto
    then have "mset (concat (map snd (map_push m k x))) = mset (concat (map snd m)) + {#x#}"
      using Cons.IH by simp
    moreover have "map_push (e # m) k x = e # map_push m k x"
      using False e by (simp add: map_push_def)
    ultimately show ?thesis by simp
  qed
qed simp

lemma mset_groupStep:
  assumes "distinct (map fst m)"
  shows "mset (concat (map snd (groupStep env pagesPath m file))) = mset (concat (map snd m)) + {#file#}"
proof (cases "map_has m (topLevelFolder env pagesPath file)")
  case True
  then show ?thesis
    using assms by (simp add: groupStep_def Let_def mset_concat_map_push map_has_iff)
next
  case False
  let ?k = "topLevelFolder env pagesPath file"
  have "distinct (map fst (m @ [(?k, [])]))" "?k \<in> fst ` set (m @ [(?k, [])])"
    using False assms by (auto simp: map_has_iff)
  then have "mset (concat (map snd (map_push (m @ [(?k, [])]) ?k file)))
               = mset (concat (map snd (m @ [(?k, [])]))) + {#file#}"
    by (rule mset_concat_map_push)
  then show ?thesis using False by (simp add: groupStep_def Let_def map_set_absent)
qed

lemma mset_groupLoop:
  "distinct (map fst m) \<Longrightarrow>
   mset (concat (map snd (groupLoop env pagesPath files m))) = mset (concat (map snd m)) + mset files"
proof (induction files arbitrary: m)
  case (Cons f fs)
  then show ?case unfolding groupLoop_Cons
    by (simp add: distinct_groupStep mset_groupStep)
qed simp

lemma mset_Object_fromEntries: "mset (Object_fromEntries m) = mset m"
  by (simp add: Object_fromEntries_def)

lemma set_Object_fromEntries: "set (Object_fromEntries m) = set m"
  by (auto simp: Object_fromEntries_def)

lemma distinct_Object_fromEntries:
  "distinct (map fst m) \<Longrightarrow> distinct (map fst (Object_fromEntries m))"
proof -
  assume d: "distinct (map fst m)"
  have "mset (map fst (Object_fromEntries m)) = mset (map fst m)"
    by (simp add: mset_Object_fromEntries)
  then show ?thesis using d by (metis mset_eq_imp_distinct_iff)
qed

lemma map_of_Object_fromEntries:
  assumes "distinct (map fst m)"
  shows "map_of (Object_fromEntries m) = map_of m"
proof
  fix k
  show "map_of (Object_fromEntries m) k = map_of m k"
  proof (cases "map_of m k")
    case None
    then have "k \<notin> fst ` set (Object_fromEntries m)"
      by (simp add: set_Object_fromEntries map_of_eq_None_iff)
    then have "map_of (Object_fromEntries m) k = None"
      by (metis map_of_eq_None_iff)
    then show ?thesis using None by simp
  next
    case (Some v)
    then have "(k, v) \<in> set (Object_fromEntries m)"
      by (simp add: set_Object_fromEntries map_of_SomeD)
    then show ?thesis
      using Some distinct_Object_fromEntries [OF assms] by simp
  qed
qed

lemma mset_concat_Object_fromEntries:
  fixes m :: "(string \<times> 'b list) list"
  shows "mset (concat (map snd (Object_fromEntries m))) = mset (concat (map snd m))"
proof -
  have "mset (concat (map snd xs)) = sum_mset (image_mset (\<lambda>e. mset (snd e)) (mset xs))"
    for xs :: "(string \<times> 'b list) list"
    by (induction xs) auto
  then show ?thesis by (simp add: mset_Object_fromEntries)
qed

lemma Object_fromEntries_idem:
  "Object_fromEntries (Object_fromEntries m) = Object_fromEntries m"
proof -
  let ?P = "\<lambda>e::string \<times> 'a. isArrayIndex (fst e)"
  let ?f = "\<lambda>e::string \<times> 'a. decimalValue (fst e)"
  let ?A = "sort_key ?f (filter ?P m)"
  let ?B = "filter (\<lambda>e. \<not> ?P e) m"
  have 1: "filter ?P ?A = ?A" by (rule filter_True) simp
  have 2: "filter ?P ?B = []" by (rule filter_False) simp
  have 3: "filter (\<lambda>e. \<not> ?P e) ?A = []" by (rule filter_False) simp
  have 4: "filter (\<lambda>e. \<not> ?P e) ?B = ?B" by (rule filter_True) simp
  have 5: "sort_key ?f ?A = ?A" by (rule sort_key_id_if_sorted) simp
  show ?thesis
    unfolding Object_fromEntries_def filter_append 1 2 3 4 append_Nil2 append_Nil 5 ..
qed

lemma groupStep_last:
  assumes "k \<notin> fst ` set m" "topLevelFolder env pagesPath f = k"
  shows "groupStep env pagesPath (m @ [(k, pre)]) f = m @ [(k, pre @ [f])]"
proof -
  have "map_has (m @ [(k, pre)]) k" by (simp add: map_has_iff)
  then have "groupStep env pagesPath (m @ [(k, pre)]) f = map_push (m @ [(k, pre)]) k f"
    using assms(2) by (simp add: groupStep_def Let_def)
  also have "\<dots> = m @ [(k, pre @ [f])]"
    using assms(1) by (simp add: map_push_append map_push_absent) (simp add: map_push_def)
  finally show ?thesis .
qed

lemma groupStep_new:
  assumes "k \<notin> fst ` set m" "topLevelFolder env pagesPath f = k"
  shows "groupStep env pagesPath m f = m @ [(k, [f])]"
proof -
  have "\<not> map_has m k" using assms(1) by (simp add: map_has_iff)
  then have "groupStep env pagesPath m f = map_push (m @ [(k, [])]) k f"
    using assms(2) by (simp add: groupStep_def Let_def map_set_absent)
  also have "\<dots> = m @ [(k, [f])]"
    using assms(1) by (simp add: map_push_append map_push_absent) (simp add: map_push_def)
  finally show ?thesis .
qed

lemma groupLoop_same_folder:
  assumes "k \<notin> fst ` set m" "\<forall>f \<in> set fs. topLevelFolder env pagesPath f = k"
  shows "groupLoop env pagesPath (fs @ rest) (m @ [(k, pre)]) =
         groupLoop env pagesPath rest (m @ [(k, pre @ fs)])"
  using assms(2)
proof (induction fs arbitrary: pre)
  case (Cons f fs)
  then show ?case
    using groupStep_last [OF assms(1), of env pagesPath f pre] by (simp add: groupLoop_Cons del: groupLoop.simps)
qed simp

lemma groupLoop_one_group:
  assumes "k \<notin> fst ` set m" "\<forall>f \<in> set fs. topLevelFolder env pagesPath f = k" "fs \<noteq> []"
  shows "groupLoop env pagesPath (fs @ rest) m = groupLoop env pagesPath rest (m @ [(k, fs)])"
proof -
  obtain f fs' where fs: "fs = f # fs'" using assms(3) by (cases fs) auto
  have "groupLoop env pagesPath (fs @ rest) m = groupLoop env pagesPath (fs' @ rest) (m @ [(k, [f])])"
    using assms(1,2) fs by (simp add: groupLoop_Cons groupStep_new del: groupLoop.simps)
  also have "\<dots> = groupLoop env pagesPath rest (m @ [(k, [f] @ fs')])"
    using assms(2) fs by (intro groupLoop_same_folder [OF assms(1)]) simp
  finally show ?thesis using fs by simp
qed

lemma groupLoop_regroup:
  "wellGrouped env pagesPath g \<Longrightarrow> fst ` set g \<inter> fst ` set m = {} \<Longrightarrow>
   groupLoop env pagesPath (concat (map snd g)) m = m @ g"
proof (induction g arbitrary: m)
  case Nil
  then show ?case by simp
next
  case (Cons e g)
  obtain k fs where e: "e = (k, fs)" by (cases e)
  from Cons.prems e have k: "k \<notin> fst ` set m" by auto
  from Cons.prems e have fs: "fs \<noteq> []" "\<forall>f \<in> set fs. topLevelFolder env pagesPath f = k"
    by (auto simp: wellGrouped_def)
  from Cons.prems e have wg: "wellGrouped env pagesPath g"
    by (auto simp: wellGrouped_def)
  from Cons.prems e have disj: "fst ` set g \<inter> fst ` set (m @ [(k, fs)]) = {}"
    by (auto simp: wellGrouped_def rev_image_eqI)
  have "groupLoop env pagesPath (concat (map snd (e # g))) m
          = groupLoop env pagesPath (concat (map snd g)) (m @ [(k, fs)])"
    using groupLoop_one_group [OF k fs(2) fs(1)] e by simp
  also have "\<dots> = (m @ [(k, fs)]) @ g"
    by (rule Cons.IH [OF wg disj])
  finally show ?case using e by simp
qed

lemma groupLoop_entries:
  assumes "(k, fs) \<in> set (groupLoop env pagesPath files [])"
  shows "fs = filter (\<lambda>f. topLevelFolder env pagesPath f = k) files \<and> fs \<noteq> []"
proof -
  have d: "distinct (map fst (groupLoop env pagesPath files []))"
    by (rule distinct_groupLoop) simp
  then have "map_of (groupLoop env pagesPath files []) k = Some fs"
    using assms by simp
  then show ?thesis
    by (simp add: map_of_groupLoop Let_def split: if_splits)
qed

lemma wellGrouped_groupFiles:
  "wellGrouped env pagesPath (groupFilesByPagesFolder env files pagesPath)"
proof -
  have d: "distinct (map fst (groupLoop env pagesPath files []))"
    by (rule distinct_groupLoop) simp
  have "fs \<noteq> [] \<and> (\<forall>f \<in> set fs. topLevelFolder env pagesPath f = k)"
    if "(k, fs) \<in> set (groupLoop env pagesPath files [])" for k fs
  proof -
    note e = groupLoop_entries [OF that]
    have "\<forall>f \<in> set fs. topLevelFolder env pagesPath f = k"
      by (subst conjunct1 [OF e]) simp
    then show ?thesis using conjunct2 [OF e] by simp
  qed
  then show ?thesis
    unfolding wellGrouped_def groupFilesByPagesFolder_def
    using distinct_Object_fromEntries [OF d]
    by (auto simp: set_Object_fromEntries)
qed

lemma regroup_groupFiles:
  "groupFilesByPagesFolder env (concat (map snd (groupFilesByPagesFolder env files pagesPath))) pagesPath
     = groupFilesByPagesFolder env files pagesPath"
proof -
  let ?g = "groupFilesByPagesFolder env files pagesPath"
  have "groupLoop env pagesPath (concat (map snd ?g)) [] = [] @ ?g"
    by (rule groupLoop_regroup [OF wellGrouped_groupFiles]) simp
  then have "groupFilesByPagesFolder env (concat (map snd ?g)) pagesPath = Object_fromEntries ?g"
    by (simp add: groupFilesByPagesFolder_def)
  also have "\<dots> = ?g"
    by (simp add: groupFilesByPagesFolder_def Object_fromEntries_idem)
  finally show ?thesis .
qed

lemma set_firstSeen: "set (firstSeen xs) = set xs"
  by (induction xs) auto

lemma distinct_firstSeen: "distinct (firstSeen xs)"
  by (induction xs) (auto simp: set_firstSeen)









lemma example_topLevelFolder:
  "topLevelFolder (exampleEnv r) ''pages'' ''pages/home/Home.jsx'' = ''home''"
  "topLevelFolder (exampleEnv r) ''pages'' ''pages/home/List.tsx'' = ''home''"
  "topLevelFolder (exampleEnv r) ''pages'' ''pages/404/index.js'' = ''404''"
  "topLevelFolder (exampleEnv r) ''pages'' ''lib/util.ts'' = ''..''"
  by (simp_all add: topLevelFolder_def exampleEnv_def exampleRelative_def pathSegments_def)

lemma example_groupLoop:
  "groupLoop (exampleEnv r) ''pages'' exampleFiles []
     = [(''home'', [''pages/home/Home.jsx'', ''pages/home/List.tsx'']),
        (''..'', [''lib/util.ts'']),
        (''404'', [''pages/404/index.js''])]"
  by (simp add: example_topLevelFolder exampleFiles_def map_has_def map_set_def map_push_def Let_def)

lemma example_isArrayIndex:
  "isArrayIndex ''404''" "\<not> isArrayIndex ''home''" "\<not> isArrayIndex ''..''"
  by (simp_all add: isArrayIndex_def isDigit_def decimalValue_def)


lemma example_grouping:
  "groupFilesByPagesFolder (exampleEnv r) exampleFiles ''pages''
     = [(''404'', [''pages/404/index.js'']),
        (''home'', [''pages/home/Home.jsx'', ''pages/home/List.tsx'']),
        (''..'', [''lib/util.ts''])]"
  by (simp add: groupFilesByPagesFolder_def example_groupLoop Object_fromEntries_def
        example_isArrayIndex)

text \<open>
  Claim C4.  The groups have distinct keys; the group stored under a key is the sequence of
  the input files whose first relative segment is that key, in input order (and there is no
  group for a key that no file has); so, counting repetitions, every input file is in exactly
  one group.  Nothing is assumed of \<open>path.relative\<close>: a file outside the pages root is
  grouped under whatever its first segment is.
\<close>

theorem grouper_groups_by_first_relative_segment:
  "distinct (map fst (groupFilesByPagesFolder env files pagesPath)) \<and>
   (\<forall>k. map_of (groupFilesByPagesFolder env files pagesPath) k =
      (if filter (\<lambda>f. topLevelFolder env pagesPath f = k) files = [] then None
       else Some (filter (\<lambda>f. topLevelFolder env pagesPath f = k) files))) \<and>
   mset (concat (map snd (groupFilesByPagesFolder env files pagesPath))) = mset files"
proof -
  have d: "distinct (map fst (groupLoop env pagesPath files []))"
    by (rule distinct_groupLoop) simp
  have 1: "distinct (map fst (groupFilesByPagesFolder env files pagesPath))"
    unfolding groupFilesByPagesFolder_def by (rule distinct_Object_fromEntries [OF d])
  have 2: "map_of (groupFilesByPagesFolder env files pagesPath) k =
      (if filter (\<lambda>f. topLevelFolder env pagesPath f = k) files = [] then None
       else Some (filter (\<lambda>f. topLevelFolder env pagesPath f = k) files))" for k
    unfolding groupFilesByPagesFolder_def map_of_Object_fromEntries [OF d]
    by (simp add: map_of_groupLoop Let_def)
  have 3: "mset (concat (map snd (groupFilesByPagesFolder env files pagesPath))) = mset files"
    unfolding groupFilesByPagesFolder_def mset_concat_Object_fromEntries
    using mset_groupLoop [of "[]" env pagesPath files] by simp
  show ?thesis using 1 2 3 by blast
qed

theorem grouper_groups_by_first_relative_segment_witness:
  "map_of (groupFilesByPagesFolder (exampleEnv []) exampleFiles ''pages'') ''home''
     = Some [''pages/home/Home.jsx'', ''pages/home/List.tsx''] \<and>
   map_of (groupFilesByPagesFolder (exampleEnv []) exampleFiles ''pages'') ''..''
     = Some [''lib/util.ts''] \<and>
   map_of (groupFilesByPagesFolder (exampleEnv []) exampleFiles ''pages'') ''about'' = None"
proof -
  have 1: "filter (\<lambda>f. topLevelFolder (exampleEnv []) ''pages'' f = ''home'') exampleFiles
             = [''pages/home/Home.jsx'', ''pages/home/List.tsx'']"
    by (simp add: exampleFiles_def example_topLevelFolder)
  have 2: "filter (\<lambda>f. topLevelFolder (exampleEnv []) ''pages'' f = ''..'') exampleFiles
             = [''lib/util.ts'']"
    by (simp add: exampleFiles_def example_topLevelFolder)
  have 3: "filter (\<lambda>f. topLevelFolder (exampleEnv []) ''pages'' f = ''about'') exampleFiles = []"
    by (simp add: exampleFiles_def example_topLevelFolder)
  have "\<forall>k. map_of (groupFilesByPagesFolder (exampleEnv []) exampleFiles ''pages'') k =
      (if filter (\<lambda>f. topLevelFolder (exampleEnv []) ''pages'' f = k) exampleFiles = [] then None
       else Some (filter (\<lambda>f. topLevelFolder (exampleEnv []) ''pages'' f = k) exampleFiles))"
    using grouper_groups_by_first_relative_segment [of "exampleEnv []" exampleFiles "''pages''"]
    by (elim conjE)
  then show ?thesis
    by (simp only: 1 2 3) simp
qed

text \<open>
  Claim C5.  Every file stored in a group has, by the same rule, the key of that group; and
  grouping the concatenation of the groups of a grouping gives that grouping again, with the
  same keys in the same order and the same sequences.
\<close>

theorem grouper_regrouping_reproduces_grouping:
  "(\<forall>(k, fs) \<in> set (groupFilesByPagesFolder env files pagesPath).
      \<forall>f \<in> set fs. topLevelFolder env pagesPath f = k) \<and>
   groupFilesByPagesFolder env (concat (map snd (groupFilesByPagesFolder env files pagesPath))) pagesPath
     = groupFilesByPagesFolder env files pagesPath"
  using wellGrouped_groupFiles [of env pagesPath files] regroup_groupFiles [of env files pagesPath]
  by (auto simp: wellGrouped_def)

theorem grouper_regrouping_reproduces_grouping_witness:
  "groupFilesByPagesFolder (exampleEnv []) exampleFiles ''pages''
     = [(''404'', [''pages/404/index.js'']),
        (''home'', [''pages/home/Home.jsx'', ''pages/home/List.tsx'']),
        (''..'', [''lib/util.ts''])] \<and>
   topLevelFolder (exampleEnv []) ''pages'' ''pages/home/List.tsx'' = ''home'' \<and>
   groupFilesByPagesFolder (exampleEnv [])
       [''pages/404/index.js'', ''pages/home/Home.jsx'', ''pages/home/List.tsx'', ''lib/util.ts''] ''pages''
     = groupFilesByPagesFolder (exampleEnv []) exampleFiles ''pages''"
proof -
  note g = example_grouping [of "[]"]
  have "(\<forall>(k, fs) \<in> set (groupFilesByPagesFolder (exampleEnv []) exampleFiles ''pages'').
          \<forall>f \<in> set fs. topLevelFolder (exampleEnv []) ''pages'' f = k) \<and>
        groupFilesByPagesFolder (exampleEnv [])
          (concat (map snd (groupFilesByPagesFolder (exampleEnv []) exampleFiles ''pages''))) ''pages''
        = groupFilesByPagesFolder (exampleEnv []) exampleFiles ''pages''"
    by (rule grouper_regrouping_reproduces_grouping)
  then show ?thesis
    unfolding g by simp
qed

section \<open>Remote Analysis Client\<close>

lemma andThen_Inl [simp]: "andThen (Inl e) f = Inl e"
  by (simp add: andThen_def)

lemma andThen_Inr [simp]: "andThen (Inr x) f = f x"
  by (simp add: andThen_def)

lemma andThen_eq_Inr_iff: "andThen r f = Inr y \<longleftrightarrow> (\<exists>x. r = Inr x \<and> f x = Inr y)"
  by (cases r) auto

lemma fst_generateContent: "fst (generateContent env an tr p) = tr @ [Fetch (requestFor an p)]"
  by (simp add: generateContent_def requestFor_def Let_def)

lemma fst_analyzer_generateContent:
  "fst (analyzer_generateContent env an tr p) = tr @ [Fetch (analyzer_requestFor an p)]"
  by (simp add: analyzer_generateContent_def analyzer_requestFor_def Let_def)

lemma snd_generateContent:
  "snd (generateContent env an tr p) =
     (case fetch env (fetchCount tr) (requestFor an p) of
        Inl e \<Rightarrow> Inl e
      | Inr response \<Rightarrow>
          (case body response of
             Inl e \<Rightarrow> Inl e
           | Inr text \<Rightarrow>
               if ok response then JSON_parse env text
               else Inl (Error (''API call failed: '' @ statusText response))))"
  by (simp add: generateContent_def requestFor_def Let_def split: sum.splits)

lemma snd_analyzer_generateContent:
  "snd (analyzer_generateContent env an tr p) =
     (case fetch env (fetchCount tr) (analyzer_requestFor an p) of
        Inl e \<Rightarrow> Inl e
      | Inr response \<Rightarrow>
          if ok response then (case body response of Inl e \<Rightarrow> Inl e | Inr text \<Rightarrow> JSON_parse env text)
          else Inl (Error (''API call failed: '' @ statusText response)))"
  by (simp add: analyzer_generateContent_def analyzer_requestFor_def Let_def split: sum.splits)

lemma response_text_first_choice:
  "getProp data ''choices'' = Inr (Arr (choice # others)) \<Longrightarrow>
   getProp choice ''message'' = Inr msg \<Longrightarrow>
   getProp msg ''content'' = Inr content \<Longrightarrow>
   response_text data = Inr content"
  by (simp add: response_text_def)

text \<open>
  Claim C7, as amended.  A response whose status is not successful makes the call throw an
  error whose message is the fixed prefix followed by the status text; the body is not part
  of it (the copy of the grouped pipeline reads the body first, so this needs the body to be
  readable there).  A successful response whose body parses makes the call return, and what
  \<open>text()\<close> then gives is the \<open>content\<close> of the \<open>message\<close> of the first of the \<open>choices\<close>,
  whatever value it is.  The call also throws when the request itself fails, when the body
  cannot be read and when the body of a successful response is not valid JSON: these and
  the unsuccessful status are all the cases in which it throws.
\<close>

theorem generateContent_throws_or_returns_content:
  "(\<forall>response text.
      fetch env (fetchCount tr) (requestFor an p) = Inr response \<and> \<not> ok response \<and>
      body response = Inr text \<longrightarrow>
      snd (generateContent env an tr p) = Inl (Error (''API call failed: '' @ statusText response))) \<and>
   (\<forall>response.
      fetch env (fetchCount tr) (analyzer_requestFor an p) = Inr response \<and> \<not> ok response \<longrightarrow>
      snd (analyzer_generateContent env an tr p) = Inl (Error (''API call failed: '' @ statusText response))) \<and>
   (\<forall>response text data.
      fetch env (fetchCount tr) (requestFor an p) = Inr response \<and> ok response \<and>
      body response = Inr text \<and> JSON_parse env text = Inr data \<longrightarrow>
      snd (generateContent env an tr p) = Inr data) \<and>
   (\<forall>response text data.
      fetch env (fetchCount tr) (analyzer_requestFor an p) = Inr response \<and> ok response \<and>
      body response = Inr text \<and> JSON_parse env text = Inr data \<longrightarrow>
      snd (analyzer_generateContent env an tr p) = Inr data) \<and>
   (\<forall>data choice others msg content.
      getProp data ''choices'' = Inr (Arr (choice # others)) \<and>
      getProp choice ''message'' = Inr msg \<and> getProp msg ''content'' = Inr content \<longrightarrow>
      response_text data = Inr content) \<and>
   (isl (snd (generateContent env an tr p)) \<longleftrightarrow>
      (case fetch env (fetchCount tr) (requestFor an p) of
         Inl e \<Rightarrow> True
       | Inr response \<Rightarrow>
           (case body response of
              Inl e \<Rightarrow> True
            | Inr text \<Rightarrow> \<not> ok response \<or> isl (JSON_parse env text)))) \<and>
   (isl (snd (analyzer_generateContent env an tr p)) \<longleftrightarrow>
      (case fetch env (fetchCount tr) (analyzer_requestFor an p) of
         Inl e \<Rightarrow> True
       | Inr response \<Rightarrow>
           \<not> ok response \<or>
           (case body response of Inl e \<Rightarrow> True | Inr text \<Rightarrow> isl (JSON_parse env text))))"
proof (intro conjI allI impI)
  show "isl (snd (generateContent env an tr p)) \<longleftrightarrow>
      (case fetch env (fetchCount tr) (requestFor an p) of
         Inl e \<Rightarrow> True
       | Inr response \<Rightarrow>
           (case body response of
              Inl e \<Rightarrow> True
            | Inr text \<Rightarrow> \<not> ok response \<or> isl (JSON_parse env text)))"
    by (simp add: snd_generateContent split: sum.splits)
  show "isl (snd (analyzer_generateContent env an tr p)) \<longleftrightarrow>
      (case fetch env (fetchCount tr) (analyzer_requestFor an p) of
         Inl e \<Rightarrow> True
       | Inr response \<Rightarrow>
           \<not> ok response \<or>
           (case body response of Inl e \<Rightarrow> True | Inr text \<Rightarrow> isl (JSON_parse env text)))"
    by (simp add: snd_analyzer_generateContent split: sum.splits)
qed (auto simp: snd_generateContent snd_analyzer_generateContent response_text_first_choice)

lemma example_response_text: "response_text (exampleData reply) = Inr (Str reply)"
  by (simp add: response_text_def exampleData_def)

theorem generateContent_throws_or_returns_content_witness:
  "snd (generateContent refusingEnv exampleAnalyzer [] ''p'') = Inl (Error ''API call failed: Too Many Requests'') \<and>
   snd (analyzer_generateContent refusingEnv exampleAnalyzer [] ''p'') = Inl (Error ''API call failed: Too Many Requests'') \<and>
   snd (generateContent (exampleEnv exampleReply) exampleAnalyzer [] ''p'') = Inr (exampleData exampleReply) \<and>
   snd (analyzer_generateContent (exampleEnv exampleReply) exampleAnalyzer [] ''p'') = Inr (exampleData exampleReply) \<and>
   response_text (exampleData exampleReply) = Inr (Str exampleReply)"
proof -
  have r: "fetch refusingEnv n q = Inr \<lparr>ok = False, statusText = ''Too Many Requests'',
                                         body = Inr ''{\"error\":\"rate limited\"}''\<rparr>" for n q
    by (simp add: refusingEnv_def)
  have e: "fetch (exampleEnv exampleReply) n q = Inr \<lparr>ok = True, statusText = ''OK'', body = Inr ''body''\<rparr>" for n q
    by (simp add: exampleEnv_def)
  have j: "JSON_parse (exampleEnv exampleReply) ''body'' = Inr (exampleData exampleReply)"
    by (simp add: exampleEnv_def exampleParse_def)
  note t1 = generateContent_throws_or_returns_content [of refusingEnv "[]" exampleAnalyzer "''p''"]
  note t2 = generateContent_throws_or_returns_content [of "exampleEnv exampleReply" "[]" exampleAnalyzer "''p''"]
  have 1: "snd (generateContent refusingEnv exampleAnalyzer [] ''p'') = Inl (Error ''API call failed: Too Many Requests'')"
    using t1 r by simp
  have 2: "snd (analyzer_generateContent refusingEnv exampleAnalyzer [] ''p'') = Inl (Error ''API call failed: Too Many Requests'')"
    using t1 r by simp
  have 3: "snd (generateContent (exampleEnv exampleReply) exampleAnalyzer [] ''p'') = Inr (exampleData exampleReply)"
    using t2 e j by simp
  have 4: "snd (analyzer_generateContent (exampleEnv exampleReply) exampleAnalyzer [] ''p'') = Inr (exampleData exampleReply)"
    using t2 e j by simp
  show ?thesis using 1 2 3 4 example_response_text by simp
qed

text \<open>
  A successful status does not exclude a thrown error: the service answers with status
  \<open>OK\<close> and a body that is not JSON, and both copies of \<open>generateContent\<close> throw the
  \<open>SyntaxError\<close> of \<open>response.json()\<close>.
\<close>

theorem generateContent_throws_on_successful_status:
  "fetch garbledEnv 0 (requestFor exampleAnalyzer ''p'') = Inr \<lparr>ok = True, statusText = ''OK'', body = Inr ''Bad Gateway''\<rparr> \<and>
   ok \<lparr>ok = True, statusText = ''OK'', body = Inr ''Bad Gateway''\<rparr> \<and>
   snd (generateContent garbledEnv exampleAnalyzer [] ''p'') = Inl (SyntaxError ''Unexpected token'') \<and>
   snd (analyzer_generateContent garbledEnv exampleAnalyzer [] ''p'') = Inl (SyntaxError ''Unexpected token'')"
  by (simp add: snd_generateContent snd_analyzer_generateContent garbledEnv_def exampleEnv_def
        exampleParse_def exampleReply_def fetchCount_def)

section \<open>Per-item analysis\<close>

lemma replyOf_eq_Inr_iff:
  "replyOf outcome = Inr v \<longleftrightarrow> (\<exists>data. snd outcome = Inr data \<and> response_text data = Inr v)"
  by (simp add: replyOf_def andThen_eq_Inr_iff)

lemma tryBlock_parse_error:
  assumes "replyOf (tr', result) = Inr (Str reply)" "JSON_parse env (cleanedResponse reply) = Inl e"
  shows "tryBlock env result label = Inl e"
proof -
  from assms(1) obtain data where "result = Inr data" "response_text data = Inr (Str reply)"
    by (auto simp: replyOf_eq_Inr_iff)
  then show ?thesis using assms(2) by (simp add: tryBlock_def)
qed

lemma logNames_printable: "list_all printableName ops \<Longrightarrow> logNames ops = Inr ()"
  by (induction ops) (auto simp: printableName_def split: sum.splits)

lemma logNames_Inr_iff: "logNames ops = Inr u \<longleftrightarrow> list_all printableName ops"
  by (induction ops) (auto simp: printableName_def split: sum.splits)

lemma logOperations_array:
  assumes "getProp analysis field = Inr (Arr ops)" "list_all printableName ops"
  shows "logOperations env analysis field = Inr ()"
  using assms by (simp add: logOperations_def logNames_printable)

lemma fieldLength_array:
  "getProp analysis field = Inr (Arr ops) \<Longrightarrow>
   fieldLength analysis field = Inr (Num (Fin (real (length ops))))"
  by (simp add: fieldLength_def)

lemma tryBlock_success:
  assumes "replyOf (tr', result) = Inr (Str reply)"
    and "JSON_parse env (cleanedResponse reply) = Inr analysis"
    and "label = Inr name" "toStringOk name"
    and "getProp analysis ''queries'' = Inr (Arr qs)" "list_all printableName qs"
    and "getProp analysis ''mutations'' = Inr (Arr ms)" "list_all printableName ms"
  shows "tryBlock env result label =
           Inr (Success name analysis (Num (Fin (real (length qs)))) (Num (Fin (real (length ms)))))"
proof -
  from assms(1) obtain data where "result = Inr data" "response_text data = Inr (Str reply)"
    by (auto simp: replyOf_eq_Inr_iff)
  then show ?thesis
    using assms(2-) by (simp add: tryBlock_def logOperations_array fieldLength_array)
qed

lemma fieldLength_lacksField: "lacksField analysis field \<Longrightarrow> isl (fieldLength analysis field)"
  by (auto simp: lacksField_def fieldLength_def cannotRead_def split: sum.splits)

lemma tryBlock_Inr_D:
  assumes "tryBlock env result label = Inr r"
  shows "\<exists>data text cleaned analysis name qc mc.
           result = Inr data \<and> response_text data = Inr text \<and> cleanText ''response'' text = Inr cleaned \<and>
           JSON_parse env cleaned = Inr analysis \<and> label = Inr name \<and> toStringOk name \<and>
           logOperations env analysis ''queries'' = Inr () \<and>
           logOperations env analysis ''mutations'' = Inr () \<and>
           fieldLength analysis ''queries'' = Inr qc \<and> fieldLength analysis ''mutations'' = Inr mc \<and>
           r = Success name analysis qc mc"
  using assms unfolding tryBlock_def andThen_eq_Inr_iff
  by (auto split: if_splits)

lemma cleanText_Inr_D:
  "cleanText receiver v = Inr cleaned \<Longrightarrow> \<exists>s. v = Str s \<and> cleaned = cleanedResponse s"
  by (cases v) auto

lemma tryBlock_lacking:
  assumes "replyOf (tr', result) = Inr (Str reply)"
    and "JSON_parse env (cleanedResponse reply) = Inr analysis"
    and "lacksField analysis ''queries'' \<or> lacksField analysis ''mutations''"
  shows "isl (tryBlock env result label)"
proof (rule ccontr)
  assume "\<not> isl (tryBlock env result label)"
  then obtain r where "tryBlock env result label = Inr r"
    by (cases "tryBlock env result label") auto
  from tryBlock_Inr_D [OF this] obtain data content cleaned analysis' qc mc where
    d: "result = Inr data" "response_text data = Inr content" "cleanText ''response'' content = Inr cleaned"
       "JSON_parse env cleaned = Inr analysis'"
       "fieldLength analysis' ''queries'' = Inr qc" "fieldLength analysis' ''mutations'' = Inr mc"
    by blast
  from assms(1) d(1,2) have "content = Str reply"
    by (auto simp: replyOf_eq_Inr_iff)
  with d(3) have "cleaned = cleanedResponse reply" by simp
  with d(4) assms(2) have "analysis' = analysis" by simp
  with d(5,6) assms(3) show False
    using fieldLength_lacksField by fastforce
qed

lemma tryBlock_success_has_fields:
  assumes "tryBlock env result label = Inr (Success name analysis qc mc)"
  shows "\<not> lacksField analysis ''queries'' \<and> \<not> lacksField analysis ''mutations'' \<and>
         fieldLength analysis ''queries'' = Inr qc \<and> fieldLength analysis ''mutations'' = Inr mc \<and>
         (\<exists>reply. replyOf (tr', result) = Inr (Str reply) \<and>
                   JSON_parse env (cleanedResponse reply) = Inr analysis)"
proof -
  from tryBlock_Inr_D [OF assms] obtain data content cleaned where
    d: "result = Inr data" "response_text data = Inr content" "cleanText ''response'' content = Inr cleaned"
       "JSON_parse env cleaned = Inr analysis"
       "fieldLength analysis ''queries'' = Inr qc" "fieldLength analysis ''mutations'' = Inr mc"
    by auto
  from cleanText_Inr_D [OF d(3)] obtain s where s: "content = Str s" "cleaned = cleanedResponse s"
    by blast
  have "replyOf (tr', result) = Inr (Str s)"
    using d(1,2) s(1) by (simp add: replyOf_def)
  moreover have "\<not> lacksField analysis ''queries''" "\<not> lacksField analysis ''mutations''"
    using d(5,6) fieldLength_lacksField by fastforce+
  ultimately show ?thesis using d(4,5,6) s(2) by blast
qed

lemma fst_analyzePageGraphQL:
  "fst (analyzePageGraphQL env an tr files pageName) =
     tr @ [Fetch (requestFor an (graphqlPrompt env files pageName))]"
  using fst_generateContent [of env an tr "graphqlPrompt env files pageName"]
  by (simp add: analyzePageGraphQL_def split_beta)

lemma snd_analyzePageGraphQL:
  "snd (analyzePageGraphQL env an tr files pageName) =
     (case tryBlock env (snd (generateContent env an tr (graphqlPrompt env files pageName)))
             (Inr (Str pageName)) of
        Inr r \<Rightarrow> r
      | Inl error \<Rightarrow> Failure (Str pageName) (message error))"
  by (simp add: analyzePageGraphQL_def split_beta)

lemma resultPage_analyzePageGraphQL:
  "resultPage (snd (analyzePageGraphQL env an tr files pageName)) = Str pageName"
proof (cases "tryBlock env (snd (generateContent env an tr (graphqlPrompt env files pageName))) (Inr (Str pageName))")
  case (Inl e)
  then show ?thesis by (simp add: snd_analyzePageGraphQL)
next
  case (Inr r)
  from tryBlock_Inr_D [OF Inr] show ?thesis
    using Inr by (auto simp: snd_analyzePageGraphQL)
qed

section \<open>Orchestrator\<close>

lemma groupsLoop_Cons:
  "groupsLoop env an g ((pageName, files) # rest) tr results =
     groupsLoop env an g rest
       (if indexOf (map fst g) pageName < int (length g) - 1
        then fst (analyzePageGraphQL env an tr files pageName) @ [Delay 10000]
        else fst (analyzePageGraphQL env an tr files pageName))
       (results @ [snd (analyzePageGraphQL env an tr files pageName)])"
  by (simp add: split_beta Let_def)

lemma snd_groupsLoop_acc:
  "snd (groupsLoop env an g xs tr results) = results @ snd (groupsLoop env an g xs tr [])"
proof (induction xs arbitrary: tr results)
  case Nil
  then show ?case by simp
next
  case (Cons x xs)
  obtain pageName files where x: "x = (pageName, files)" by (cases x)
  show ?case
    unfolding x groupsLoop_Cons
    by (subst Cons.IH) (subst (2) Cons.IH, simp)
qed

lemma fst_groupsLoop_acc:
  "fst (groupsLoop env an g xs tr results) = fst (groupsLoop env an g xs tr [])"
proof (induction xs arbitrary: tr results)
  case Nil
  then show ?case by simp
next
  case (Cons x xs)
  obtain pageName files where x: "x = (pageName, files)" by (cases x)
  show ?case
    unfolding x groupsLoop_Cons
    by (subst Cons.IH) (subst (2) Cons.IH, simp)
qed

lemma groupsLoop_append:
  "groupsLoop env an g (xs @ ys) tr results =
     groupsLoop env an g ys (fst (groupsLoop env an g xs tr results))
       (snd (groupsLoop env an g xs tr results))"
proof (induction xs arbitrary: tr results)
  case Nil
  then show ?case by simp
next
  case (Cons x xs)
  obtain pageName files where x: "x = (pageName, files)" by (cases x)
  show ?case
    unfolding x append_Cons groupsLoop_Cons by (rule Cons.IH)
qed

lemma length_snd_groupsLoop:
  "length (snd (groupsLoop env an g xs tr results)) = length results + length xs"
proof (induction xs arbitrary: tr results)
  case Nil
  then show ?case by simp
next
  case (Cons x xs)
  obtain pageName files where x: "x = (pageName, files)" by (cases x)
  show ?case
    unfolding x groupsLoop_Cons by (simp add: Cons.IH)
qed

lemma resultPage_snd_groupsLoop:
  "map resultPage (snd (groupsLoop env an g xs tr results)) =
     map resultPage results @ map (\<lambda>(pageName, files). Str pageName) xs"
proof (induction xs arbitrary: tr results)
  case Nil
  then show ?case by simp
next
  case (Cons x xs)
  obtain pageName files where x: "x = (pageName, files)" by (cases x)
  show ?case
    unfolding x groupsLoop_Cons by (simp add: Cons.IH resultPage_analyzePageGraphQL)
qed

lemma indexOf_absent: "x \<notin> set xs \<Longrightarrow> indexOf xs x = - 1"
  by (induction xs) (auto simp: Let_def)

lemma indexOf_first: "x \<notin> set pre \<Longrightarrow> indexOf (pre @ x # post) x = int (length pre)"
  by (induction pre) (auto simp: Let_def)



lemma fst_groupsLoop_events:
  "distinct (map fst g) \<Longrightarrow> g = pre @ xs \<Longrightarrow>
   fst (groupsLoop env an g xs tr results) = tr @ groupEvents env an xs"
proof (induction xs arbitrary: pre tr results)
  case Nil
  then show ?case by simp
next
  case (Cons x xs)
  obtain pageName files where x: "x = (pageName, files)" by (cases x)
  from Cons.prems x have notin: "pageName \<notin> set (map fst pre)" by auto
  have "map fst g = map fst pre @ pageName # map fst xs"
    using Cons.prems(2) x by simp
  then have idx: "indexOf (map fst g) pageName = int (length pre)"
    using indexOf_first [OF notin] by simp
  have len: "length g = length pre + Suc (length xs)"
    using Cons.prems(2) by simp
  have g': "g = (pre @ [x]) @ xs" using Cons.prems(2) by simp
  show ?case
  proof (cases xs)
    case Nil
    then show ?thesis
      unfolding x groupsLoop_Cons idx len by (simp add: fst_analyzePageGraphQL)
  next
    case (Cons y ys)
    have "fst (groupsLoop env an g (x # xs) tr results) =
            (tr @ [Fetch (requestFor an (graphqlPrompt env files pageName)), Delay 10000])
            @ groupEvents env an xs"
      unfolding x groupsLoop_Cons idx len
      using Cons.IH [OF Cons.prems(1) g'] Cons by (simp add: fst_analyzePageGraphQL)
    then show ?thesis using Cons x by simp
  qed
qed



lemma writes_groupEvents: "filter isWriteFile (groupEvents env an g) = []"
  by (induction env an g rule: groupEvents.induct) simp_all



section \<open>Per-item analysis over a page inventory\<close>

lemma interpolate_Inr_iff: "interpolate env v = Inr s \<longleftrightarrow> toStringOk v \<and> s = ToString env v"
  by (auto simp: interpolate_def)

lemma logPage_Inr_D:
  assumes "logPage env page = Inr u"
  shows "\<exists>path c. getProp page ''path'' = Inr path \<and> toStringOk path \<and>
                  getProp page ''component'' = Inr c \<and> toStringOk c"
  using assms unfolding logPage_def andThen_eq_Inr_iff interpolate_Inr_iff by blast

lemma analyzer_analyzePageGraphQL_logged:
  assumes "logPage env page = Inr ()"
    and "getProp page ''path'' = Inr path" and "getProp page ''component'' = Inr c"
  shows "analyzer_analyzePageGraphQL env an tr page context =
           (tr @ [Fetch (analyzer_requestFor an (pageGraphqlPrompt (ToString env c) context))],
            Inr (case tryBlock env
                        (snd (analyzer_generateContent env an tr
                                (pageGraphqlPrompt (ToString env c) context)))
                        (Inr path) of
                   Inr r \<Rightarrow> r
                 | Inl error \<Rightarrow> Failure path (message error)))"
proof -
  from logPage_Inr_D [OF assms(1)] assms(2,3) have ok: "toStringOk path" "toStringOk c"
    by auto
  show ?thesis
    using assms(2,3) ok
      fst_analyzer_generateContent [of env an tr "pageGraphqlPrompt (ToString env c) context"]
    by (simp add: analyzer_analyzePageGraphQL_def interpolate_def split_beta split: sum.splits)
qed

lemma analyzer_analyzePageGraphQL_returns:
  assumes "logPage env page = Inr ()"
  shows "\<exists>r. snd (analyzer_analyzePageGraphQL env an tr page context) = Inr r"
proof -
  from logPage_Inr_D [OF assms] obtain path c where
    "getProp page ''path'' = Inr path" "getProp page ''component'' = Inr c" by blast
  from analyzer_analyzePageGraphQL_logged [OF assms this] show ?thesis by simp
qed

lemma logPages_Inr_iff: "logPages env ps = Inr u \<longleftrightarrow> (\<forall>p \<in> set ps. logPage env p = Inr ())"
  by (induction ps) (auto simp: andThen_eq_Inr_iff)

lemma pagesLoop_logged:
  "\<forall>p \<in> set xs. logPage env p = Inr () \<Longrightarrow>
   \<exists>more. snd (pagesLoop env an pages xs i context tr results) = Inr (results @ more) \<and>
          length more = length xs"
proof (induction xs arbitrary: i tr results)
  case Nil
  then show ?case by simp
next
  case (Cons x xs)
  then have "logPage env x = Inr ()" by simp
  from analyzer_analyzePageGraphQL_returns [OF this, of an tr "context"]
  obtain tr1 r where call: "analyzer_analyzePageGraphQL env an tr x context = (tr1, Inr r)"
    by (cases "analyzer_analyzePageGraphQL env an tr x context") auto
  let ?tr2 = "if pagesIndexOf pages i < int (length pages) - 1 then tr1 @ [Delay 60000] else tr1"
  from Cons.prems have "\<forall>p \<in> set xs. logPage env p = Inr ()" by simp
  from Cons.IH [OF this, of "Suc i" "?tr2" "results @ [r]"]
  obtain more where
    "snd (pagesLoop env an pages xs (Suc i) context ?tr2 (results @ [r])) = Inr ((results @ [r]) @ more)"
    "length more = length xs" by blast
  then have "snd (pagesLoop env an pages (x # xs) i context tr results) = Inr (results @ (r # more))"
       "length (r # more) = length (x # xs)"
    using call by simp_all
  then show ?case by blast
qed

lemma pagesLoop_append:
  "pagesLoop env an pages (xs @ ys) i context tr results =
     (case pagesLoop env an pages xs i context tr results of
        (tr1, Inl e) \<Rightarrow> (tr1, Inl e)
      | (tr1, Inr results1) \<Rightarrow> pagesLoop env an pages ys (i + length xs) context tr1 results1)"
proof (induction xs arbitrary: i tr results)
  case Nil
  then show ?case by simp
next
  case (Cons x xs)
  show ?case
  proof (cases "analyzer_analyzePageGraphQL env an tr x context")
    case (Pair tr1 outcome)
    then show ?thesis
      by (cases outcome) (simp_all add: Cons.IH cong: prod.case_cong sum.case_cong)
  qed
qed

lemma pagesLoop_failure_at:
  assumes logged: "\<forall>p \<in> set (pre @ page # post). logPage env p = Inr ()"
    and call: "snd (analyzer_analyzePageGraphQL env an
                      (fst (pagesLoop env an pages pre 0 context tr [])) page context) = Inr r"
  shows "\<exists>results. snd (pagesLoop env an pages (pre @ page # post) 0 context tr []) = Inr results \<and>
                   length results = length (pre @ page # post) \<and> results ! length pre = r"
proof -
  from logged have lp: "\<forall>p \<in> set pre. logPage env p = Inr ()" by simp
  from pagesLoop_logged [OF lp, of an pages 0 "context" tr "[]"]
  obtain results1 where r1: "snd (pagesLoop env an pages pre 0 context tr []) = Inr results1"
    "length results1 = length pre" by auto
  define tr1 where "tr1 = fst (pagesLoop env an pages pre 0 context tr [])"
  have pre: "pagesLoop env an pages pre 0 context tr [] = (tr1, Inr results1)"
    using r1(1) by (simp add: tr1_def prod_eq_iff)
  obtain tr2 where step: "analyzer_analyzePageGraphQL env an tr1 page context = (tr2, Inr r)"
    using call unfolding tr1_def [symmetric]
    by (cases "analyzer_analyzePageGraphQL env an tr1 page context") auto
  let ?tr3 = "if pagesIndexOf pages (length pre) < int (length pages) - 1
              then tr2 @ [Delay 60000] else tr2"
  from logged have "\<forall>p \<in> set post. logPage env p = Inr ()" by simp
  from pagesLoop_logged [OF this, of an pages "Suc (length pre)" "context" "?tr3" "results1 @ [r]"]
  obtain more where m:
    "snd (pagesLoop env an pages post (Suc (length pre)) context ?tr3 (results1 @ [r]))
       = Inr ((results1 @ [r]) @ more)" "length more = length post" by blast
  have "snd (pagesLoop env an pages (pre @ page # post) 0 context tr []) = Inr ((results1 @ [r]) @ more)"
    using pre step m(1) by (simp add: pagesLoop_append)
  moreover have "length ((results1 @ [r]) @ more) = length (pre @ page # post)"
    using r1(2) m(2) by simp
  moreover have "((results1 @ [r]) @ more) ! length pre = r"
    using r1(2) by (simp add: nth_append)
  ultimately show ?thesis by blast
qed

lemma groupsLoop_result_at:
  "snd (groupsLoop env an g (pre @ (pageName, files) # post) tr []) ! length pre =
     snd (analyzePageGraphQL env an (fst (groupsLoop env an g pre tr [])) files pageName)"
proof -
  let ?tr1 = "fst (groupsLoop env an g pre tr [])"
  let ?rs1 = "snd (groupsLoop env an g pre tr [])"
  have len: "length ?rs1 = length pre" by (simp add: length_snd_groupsLoop)
  have "snd (groupsLoop env an g (pre @ (pageName, files) # post) tr []) =
          snd (groupsLoop env an g ((pageName, files) # post) ?tr1 ?rs1)"
    by (simp add: groupsLoop_append)
  also have "\<dots> = (?rs1 @ [snd (analyzePageGraphQL env an ?tr1 files pageName)]) @
                    snd (groupsLoop env an g post
                      (if indexOf (map fst g) pageName < int (length g) - 1
                       then fst (analyzePageGraphQL env an ?tr1 files pageName) @ [Delay 10000]
                       else fst (analyzePageGraphQL env an ?tr1 files pageName)) [])"
    unfolding groupsLoop_Cons by (subst snd_groupsLoop_acc) simp
  finally show ?thesis using len by (simp add: nth_append)
qed













section \<open>The claims on the per-item analysis\<close>

lemma pagesInventory_logged:
  assumes "pagesInventory env pagesResult = Inr pages"
  shows "\<forall>p \<in> set pages. logPage env p = Inr ()"
proof -
  from assms obtain parsed where "forEachPage env parsed = Inr pages"
    unfolding pagesInventory_def andThen_eq_Inr_iff by blast
  then have "logPages env pages = Inr ()"
    by (cases parsed) (auto simp: andThen_eq_Inr_iff)
  then show ?thesis by (simp add: logPages_Inr_iff)
qed

lemma analyzePageGraphQL_parse_error:
  assumes "replyOf (generateContent env an tr (graphqlPrompt env files pageName)) = Inr (Str reply)"
    and "JSON_parse env (cleanedResponse reply) = Inl e"
  shows "snd (analyzePageGraphQL env an tr files pageName) = Failure (Str pageName) (message e)"
proof -
  have "tryBlock env (snd (generateContent env an tr (graphqlPrompt env files pageName)))
          (Inr (Str pageName)) = Inl e"
    by (rule tryBlock_parse_error [of "fst (generateContent env an tr (graphqlPrompt env files pageName))"])
       (use assms in simp_all)
  then show ?thesis by (simp add: snd_analyzePageGraphQL)
qed

lemma analyzer_analyzePageGraphQL_parse_error:
  assumes "logPage env page = Inr ()"
    and "getProp page ''path'' = Inr path" and "getProp page ''component'' = Inr c"
    and "replyOf (analyzer_generateContent env an tr (pageGraphqlPrompt (ToString env c) context))
           = Inr (Str reply)"
    and "JSON_parse env (cleanedResponse reply) = Inl e"
  shows "snd (analyzer_analyzePageGraphQL env an tr page context) = Inr (Failure path (message e))"
proof -
  let ?out = "analyzer_generateContent env an tr (pageGraphqlPrompt (ToString env c) context)"
  have "tryBlock env (snd ?out) (Inr path) = Inl e"
    by (rule tryBlock_parse_error [of "fst ?out"]) (use assms(4,5) in simp_all)
  then show ?thesis
    by (simp add: analyzer_analyzePageGraphQL_logged [OF assms(1,2,3)])
qed

text \<open>
  Claim C3.  When the reply text of a per-item call is not valid JSON, the call returns the
  record \<open>{page, error}\<close> with the message of the parse error: in the grouped pipeline for
  every call, in the page inventory pipeline for every page that \<open>analyzePages\<close> passes on
  (it has printed the page's fields before the loop starts).  The loop goes on: whatever
  position the item has, the results hold the error record at that position and one record
  for every item.
\<close>

theorem unparseable_reply_gives_error_record:
  "(\<forall>reply e.
      replyOf (generateContent env an tr (graphqlPrompt env files pageName)) = Inr (Str reply) \<and>
      JSON_parse env (cleanedResponse reply) = Inl e \<longrightarrow>
      snd (analyzePageGraphQL env an tr files pageName) = Failure (Str pageName) (message e)) \<and>
   (\<forall>pre post reply e.
      replyOf (generateContent env an
                 (fst (groupsLoop env an (pre @ (pageName, files) # post) pre tr []))
                 (graphqlPrompt env files pageName)) = Inr (Str reply) \<and>
      JSON_parse env (cleanedResponse reply) = Inl e \<longrightarrow>
      snd (analyzeGroupedFiles env an tr (pre @ (pageName, files) # post)) ! length pre
        = Failure (Str pageName) (message e) \<and>
      length (snd (analyzeGroupedFiles env an tr (pre @ (pageName, files) # post)))
        = length (pre @ (pageName, files) # post)) \<and>
   (\<forall>path c reply e.
      logPage env page = Inr () \<and>
      getProp page ''path'' = Inr path \<and> getProp page ''component'' = Inr c \<and>
      replyOf (analyzer_generateContent env an tr (pageGraphqlPrompt (ToString env c) context))
        = Inr (Str reply) \<and>
      JSON_parse env (cleanedResponse reply) = Inl e \<longrightarrow>
      snd (analyzer_analyzePageGraphQL env an tr page context) = Inr (Failure path (message e))) \<and>
   (\<forall>pre post path c reply e.
      pagesInventory env (snd (analyzer_generateContent env an tr (pagesPrompt1 @ context)))
        = Inr (pre @ page # post) \<and>
      getProp page ''path'' = Inr path \<and> getProp page ''component'' = Inr c \<and>
      replyOf (analyzer_generateContent env an
                 (fst (pagesLoop env an (pre @ page # post) pre 0 context
                         (tr @ [Fetch (analyzer_requestFor an (pagesPrompt1 @ context)), Delay 60000]) []))
                 (pageGraphqlPrompt (ToString env c) context)) = Inr (Str reply) \<and>
      JSON_parse env (cleanedResponse reply) = Inl e \<longrightarrow>
      (\<exists>results.
         snd (analyzer_analyzePages env an tr context) = Inr (pre @ page # post, results) \<and>
         length results = length (pre @ page # post) \<and>
         results ! length pre = Failure path (message e)))"
proof (intro conjI allI impI)
  fix reply e
  assume "replyOf (generateContent env an tr (graphqlPrompt env files pageName)) = Inr (Str reply) \<and>
          JSON_parse env (cleanedResponse reply) = Inl e"
  then show "snd (analyzePageGraphQL env an tr files pageName) = Failure (Str pageName) (message e)"
    by (simp add: analyzePageGraphQL_parse_error)
next
  fix pre post reply e
  let ?g = "pre @ (pageName, files) # post"
  assume a: "replyOf (generateContent env an (fst (groupsLoop env an ?g pre tr []))
                        (graphqlPrompt env files pageName)) = Inr (Str reply) \<and>
             JSON_parse env (cleanedResponse reply) = Inl e"
  show "snd (analyzeGroupedFiles env an tr ?g) ! length pre = Failure (Str pageName) (message e)"
    unfolding analyzeGroupedFiles_def groupsLoop_result_at
    using a by (simp add: analyzePageGraphQL_parse_error)
  show "length (snd (analyzeGroupedFiles env an tr ?g)) = length ?g"
    unfolding analyzeGroupedFiles_def by (simp add: length_snd_groupsLoop)
next
  fix path c reply e
  assume "logPage env page = Inr () \<and>
      getProp page ''path'' = Inr path \<and> getProp page ''component'' = Inr c \<and>
      replyOf (analyzer_generateContent env an tr (pageGraphqlPrompt (ToString env c) context))
        = Inr (Str reply) \<and>
      JSON_parse env (cleanedResponse reply) = Inl e"
  then show "snd (analyzer_analyzePageGraphQL env an tr page context) = Inr (Failure path (message e))"
    by (simp add: analyzer_analyzePageGraphQL_parse_error)
next
  fix pre post path c reply e
  let ?pages = "pre @ page # post"
  let ?tr1 = "tr @ [Fetch (analyzer_requestFor an (pagesPrompt1 @ context)), Delay 60000]"
  assume a: "pagesInventory env (snd (analyzer_generateContent env an tr (pagesPrompt1 @ context)))
        = Inr ?pages \<and>
      getProp page ''path'' = Inr path \<and> getProp page ''component'' = Inr c \<and>
      replyOf (analyzer_generateContent env an
                 (fst (pagesLoop env an ?pages pre 0 context ?tr1 []))
                 (pageGraphqlPrompt (ToString env c) context)) = Inr (Str reply) \<and>
      JSON_parse env (cleanedResponse reply) = Inl e"
  then have inv: "pagesInventory env (snd (analyzer_generateContent env an tr (pagesPrompt1 @ context)))
        = Inr ?pages" by simp
  have logged: "\<forall>p \<in> set ?pages. logPage env p = Inr ()"
    by (rule pagesInventory_logged [OF inv])
  then have lp: "logPage env page = Inr ()" by simp
  have call: "snd (analyzer_analyzePageGraphQL env an
                     (fst (pagesLoop env an ?pages pre 0 context ?tr1 [])) page context)
                = Inr (Failure path (message e))"
    using a lp by (simp add: analyzer_analyzePageGraphQL_parse_error)
  from pagesLoop_failure_at [OF logged call]
  obtain results where r: "snd (pagesLoop env an ?pages ?pages 0 context ?tr1 []) = Inr results"
    "length results = length ?pages" "results ! length pre = Failure path (message e)"
    by blast
  have "snd (analyzer_analyzePages env an tr context) = Inr (?pages, results)"
    using inv r(1) fst_analyzer_generateContent [of env an tr "pagesPrompt1 @ context"]
    by (simp add: analyzer_analyzePages_def split_beta split: prod.splits sum.splits)
  then show "\<exists>results.
         snd (analyzer_analyzePages env an tr context) = Inr (?pages, results) \<and>
         length results = length ?pages \<and> results ! length pre = Failure path (message e)"
    using r(2,3) by blast
qed

lemma cleanedResponse_unfenced:
  "\<not> prefix openingFence s \<Longrightarrow> \<not> suffix closingFence s \<Longrightarrow> cleanedResponse s = s"
  by (simp add: cleanedResponse_def replacePrefix_def replaceSuffix_def)

lemma example_cleanedResponse:
  "cleanedResponse refusalReply = refusalReply"
  "cleanedResponse exampleReply = exampleReply"
  "cleanedResponse nullQueryReply = nullQueryReply"
  "cleanedResponse objectFieldsReply = objectFieldsReply"
  "cleanedResponse emptyObjectReply = emptyObjectReply"
  by (rule cleanedResponse_unfenced;
      simp add: openingFence_def closingFence_def newline_def suffix_to_prefix refusalReply_def
        exampleReply_def nullQueryReply_def objectFieldsReply_def emptyObjectReply_def)+

lemma example_JSON_parse:
  "JSON_parse (exampleEnv r) refusalReply = Inl (SyntaxError ''Unexpected token'')"
  "JSON_parse (exampleEnv r) exampleReply = Inr exampleAnalysis"
  "JSON_parse (exampleEnv r) nullQueryReply = Inr (Obj [(''queries'', Arr [Null]), (''mutations'', Arr [])])"
  "JSON_parse (exampleEnv r) objectFieldsReply = Inr (Obj [(''queries'', Obj []), (''mutations'', Obj [])])"
  "JSON_parse (exampleEnv r) emptyObjectReply = Inr (Obj [])"
  by (simp_all add: exampleEnv_def exampleParse_def refusalReply_def exampleReply_def
        nullQueryReply_def objectFieldsReply_def emptyObjectReply_def)

lemma example_replyOf:
  "replyOf (generateContent (exampleEnv r) an tr p) = Inr (Str r)"
  "replyOf (analyzer_generateContent (exampleEnv r) an tr p) = Inr (Str r)"
  by (simp_all add: replyOf_def snd_generateContent snd_analyzer_generateContent exampleEnv_def
        exampleParse_def example_response_text)

lemma example_logPage: "logPage env examplePage = Inr ()"
  by (simp add: logPage_def examplePage_def interpolate_def)

lemma example_page_fields:
  "getProp examplePage ''path'' = Inr (Str ''/home'')"
  "getProp examplePage ''component'' = Inr (Str ''Home.jsx'')"
  by (simp_all add: examplePage_def)

lemma fetchCount_analyzer_analyzePageGraphQL:
  "fetchCount tr \<le> fetchCount (fst (analyzer_analyzePageGraphQL env an tr page context))"
proof (cases "andThen (getProp page ''component'') (interpolate env)")
  case (Inl e)
  then show ?thesis by (simp add: analyzer_analyzePageGraphQL_def)
next
  case (Inr component)
  then show ?thesis
    using fst_analyzer_generateContent [of env an tr "pageGraphqlPrompt component context"]
    by (simp add: analyzer_analyzePageGraphQL_def split_beta fetchCount_def)
qed

lemma fetchCount_pagesLoop:
  "fetchCount tr \<le> fetchCount (fst (pagesLoop env an pages xs i context tr results))"
proof (induction xs arbitrary: i tr results)
  case Nil
  then show ?case by simp
next
  case (Cons x xs)
  obtain tr1 outcome where call: "analyzer_analyzePageGraphQL env an tr x context = (tr1, outcome)"
    by (cases "analyzer_analyzePageGraphQL env an tr x context")
  have le: "fetchCount tr \<le> fetchCount tr1"
    using fetchCount_analyzer_analyzePageGraphQL [of tr env an x "context"] call by simp
  show ?case
  proof (cases outcome)
    case (Inl e)
    then show ?thesis using call le by simp
  next
    case (Inr r)
    let ?tr2 = "if pagesIndexOf pages i < int (length pages) - 1 then tr1 @ [Delay 60000] else tr1"
    have "fetchCount tr1 \<le> fetchCount ?tr2" by (simp add: fetchCount_def)
    moreover have "fetchCount ?tr2 \<le>
        fetchCount (fst (pagesLoop env an pages xs (Suc i) context ?tr2 (results @ [r])))"
      by (rule Cons.IH)
    ultimately show ?thesis using call Inr le by simp
  qed
qed

lemma fetchCount_pagesLoop_pos:
  "fetchCount tr \<noteq> 0 \<Longrightarrow>
   fetchCount (fst (pagesLoop env an pages xs i context tr results)) \<noteq> 0"
  using fetchCount_pagesLoop [of tr env an pages xs i "context" results] by simp

lemma inventory_cleanedResponse: "cleanedResponse inventoryReply = inventoryReply"
  by (rule cleanedResponse_unfenced;
      simp add: openingFence_def closingFence_def newline_def suffix_to_prefix inventoryReply_def)

lemma inventory_env:
  "fetch inventoryEnv n r =
     Inr \<lparr>ok = True, statusText = ''OK'', body = Inr (if n = 0 then ''inventory body'' else ''body'')\<rparr>"
  "JSON_parse inventoryEnv = inventoryParse"
  by (simp_all add: inventoryEnv_def)

lemma inventory_parse:
  "inventoryParse ''inventory body'' = Inr (exampleData inventoryReply)"
  "inventoryParse ''body'' = Inr (exampleData refusalReply)"
  "inventoryParse inventoryReply = Inr (Arr [examplePage, aboutPage])"
  "inventoryParse refusalReply = Inl (SyntaxError ''Unexpected token'')"
  by (simp_all add: inventoryParse_def exampleParse_def inventoryReply_def
        refusalReply_def exampleReply_def)

lemma inventory_pages:
  "pagesInventory inventoryEnv (snd (analyzer_generateContent inventoryEnv an [] p))
     = Inr [examplePage, aboutPage]"
proof -
  have "snd (analyzer_generateContent inventoryEnv an [] p) = Inr (exampleData inventoryReply)"
    by (simp add: snd_analyzer_generateContent fetchCount_def inventory_env inventory_parse)
  then show ?thesis
    by (simp add: pagesInventory_def example_response_text inventory_cleanedResponse
          inventory_env inventory_parse logPage_def examplePage_def aboutPage_def interpolate_def)
qed

lemma inventory_later_reply:
  "fetchCount tr \<noteq> 0 \<Longrightarrow>
   replyOf (analyzer_generateContent inventoryEnv an tr p) = Inr (Str refusalReply)"
  by (simp add: replyOf_def snd_analyzer_generateContent example_response_text
        inventory_env inventory_parse)

lemma inventory_refusal:
  "JSON_parse inventoryEnv (cleanedResponse refusalReply) = Inl (SyntaxError ''Unexpected token'')"
  by (simp add: example_cleanedResponse inventory_env inventory_parse)

theorem unparseable_reply_gives_error_record_witness:
  "snd (analyzePageGraphQL (exampleEnv refusalReply) exampleAnalyzer [] [''pages/home/Home.jsx''] ''home'')
     = Failure (Str ''home'') ''Unexpected token'' \<and>
   snd (analyzeGroupedFiles (exampleEnv refusalReply) exampleAnalyzer [] exampleGroups) ! 1
     = Failure (Str ''home'') ''Unexpected token'' \<and>
   length (snd (analyzeGroupedFiles (exampleEnv refusalReply) exampleAnalyzer [] exampleGroups)) = 3 \<and>
   snd (analyzer_analyzePageGraphQL (exampleEnv refusalReply) exampleAnalyzer [] examplePage ''source text'')
     = Inr (Failure (Str ''/home'') ''Unexpected token'') \<and>
   (\<exists>results.
      snd (analyzer_analyzePages inventoryEnv exampleAnalyzer [] ''source text'')
        = Inr ([examplePage, aboutPage], results) \<and>
      length results = 2 \<and> results ! 1 = Failure (Str ''/about'') ''Unexpected token'')"
proof -
  note t = unparseable_reply_gives_error_record
    [of "exampleEnv refusalReply" exampleAnalyzer "[]" "[''pages/home/Home.jsx'']" "''home''"
        examplePage "''source text''"]
  note g = unparseable_reply_gives_error_record
    [of "exampleEnv refusalReply" exampleAnalyzer "[]" "[''pages/home/Home.jsx'', ''pages/home/List.tsx'']"
        "''home''" examplePage "''source text''"]
  note i = unparseable_reply_gives_error_record
    [of inventoryEnv exampleAnalyzer "[]" "[]" "''home''" aboutPage "''source text''"]
  have p: "JSON_parse (exampleEnv refusalReply) (cleanedResponse refusalReply)
             = Inl (SyntaxError ''Unexpected token'')"
    by (simp add: example_cleanedResponse example_JSON_parse)
  have 1: "snd (analyzePageGraphQL (exampleEnv refusalReply) exampleAnalyzer [] [''pages/home/Home.jsx''] ''home'')
             = Failure (Str ''home'') (message (SyntaxError ''Unexpected token''))"
    by (rule t [THEN conjunct1, rule_format, of refusalReply]) (simp add: example_replyOf p)
  have 2: "snd (analyzeGroupedFiles (exampleEnv refusalReply) exampleAnalyzer []
                  ([(''404'', [''pages/404/index.js''])]
                   @ (''home'', [''pages/home/Home.jsx'', ''pages/home/List.tsx''])
                   # [(''..'', [''lib/util.ts''])])) ! length [(''404'', [''pages/404/index.js''])]
             = Failure (Str ''home'') (message (SyntaxError ''Unexpected token'')) \<and>
           length (snd (analyzeGroupedFiles (exampleEnv refusalReply) exampleAnalyzer []
                  ([(''404'', [''pages/404/index.js''])]
                   @ (''home'', [''pages/home/Home.jsx'', ''pages/home/List.tsx''])
                   # [(''..'', [''lib/util.ts''])])))
             = length ([(''404'', [''pages/404/index.js''])]
                   @ (''home'', [''pages/home/Home.jsx'', ''pages/home/List.tsx''])
                   # [(''..'', [''lib/util.ts''])])"
    by (rule g [THEN conjunct2, THEN conjunct1, rule_format, of _ _ refusalReply])
       (simp add: example_replyOf p)
  have 3: "snd (analyzer_analyzePageGraphQL (exampleEnv refusalReply) exampleAnalyzer [] examplePage ''source text'')
             = Inr (Failure (Str ''/home'') (message (SyntaxError ''Unexpected token'')))"
    by (rule t [THEN conjunct2, THEN conjunct2, THEN conjunct1, rule_format,
                of _ "Str ''Home.jsx''" refusalReply])
       (simp add: example_replyOf p example_logPage example_page_fields)
  have "fetchCount ([] @ [Fetch (analyzer_requestFor exampleAnalyzer (pagesPrompt1 @ ''source text'')),
                          Delay 60000]) \<noteq> 0"
    by (simp add: fetchCount_def)
  then have c: "fetchCount (fst (pagesLoop inventoryEnv exampleAnalyzer ([examplePage] @ aboutPage # [])
                              [examplePage] 0 ''source text''
                              ([] @ [Fetch (analyzer_requestFor exampleAnalyzer (pagesPrompt1 @ ''source text'')),
                                     Delay 60000]) [])) \<noteq> 0"
    by (rule fetchCount_pagesLoop_pos)
  have h1: "pagesInventory inventoryEnv
              (snd (analyzer_generateContent inventoryEnv exampleAnalyzer [] (pagesPrompt1 @ ''source text'')))
            = Inr ([examplePage] @ aboutPage # [])"
    by (simp add: inventory_pages)
  have h2: "getProp aboutPage ''path'' = Inr (Str ''/about'')"
    and h3: "getProp aboutPage ''component'' = Inr (Str ''About.jsx'')"
    by (simp_all add: aboutPage_def)
  have h4: "replyOf (analyzer_generateContent inventoryEnv exampleAnalyzer
                       (fst (pagesLoop inventoryEnv exampleAnalyzer ([examplePage] @ aboutPage # [])
                               [examplePage] 0 ''source text''
                               ([] @ [Fetch (analyzer_requestFor exampleAnalyzer (pagesPrompt1 @ ''source text'')),
                                      Delay 60000]) []))
                       (pageGraphqlPrompt (ToString inventoryEnv (Str ''About.jsx'')) ''source text''))
            = Inr (Str refusalReply)"
    by (rule inventory_later_reply [OF c])
  have 4: "\<exists>results.
      snd (analyzer_analyzePages inventoryEnv exampleAnalyzer [] ''source text'')
        = Inr ([examplePage] @ aboutPage # [], results) \<and>
      length results = length ([examplePage] @ aboutPage # []) \<and>
      results ! length [examplePage] = Failure (Str ''/about'') (message (SyntaxError ''Unexpected token''))"
    by (rule i [THEN conjunct2, THEN conjunct2, THEN conjunct2, rule_format,
                of "[examplePage]" "[]" _ "Str ''About.jsx''" refusalReply])
       (intro conjI h1 h2 h3 h4 inventory_refusal)
  show ?thesis using 1 2 3 4 by (simp add: exampleGroups_def numeral_2_eq_2)
qed

lemma analyzePageGraphQL_success:
  assumes "replyOf (generateContent env an tr (graphqlPrompt env files pageName)) = Inr (Str reply)"
    and "JSON_parse env (cleanedResponse reply) = Inr analysis"
    and "getProp analysis ''queries'' = Inr (Arr qs)" "getProp analysis ''mutations'' = Inr (Arr ms)"
    and "list_all printableName (qs @ ms)"
  shows "snd (analyzePageGraphQL env an tr files pageName) =
           Success (Str pageName) analysis (Num (Fin (real (length qs)))) (Num (Fin (real (length ms))))"
proof -
  have "tryBlock env (snd (generateContent env an tr (graphqlPrompt env files pageName)))
          (Inr (Str pageName)) =
        Inr (Success (Str pageName) analysis (Num (Fin (real (length qs)))) (Num (Fin (real (length ms)))))"
    by (rule tryBlock_success [of "fst (generateContent env an tr (graphqlPrompt env files pageName))"])
       (use assms in simp_all)
  then show ?thesis by (simp add: snd_analyzePageGraphQL)
qed

lemma analyzer_analyzePageGraphQL_success:
  assumes "logPage env page = Inr ()"
    and "getProp page ''path'' = Inr path" and "getProp page ''component'' = Inr c"
    and "replyOf (analyzer_generateContent env an tr (pageGraphqlPrompt (ToString env c) context))
           = Inr (Str reply)"
    and "JSON_parse env (cleanedResponse reply) = Inr analysis"
    and "getProp analysis ''queries'' = Inr (Arr qs)" "getProp analysis ''mutations'' = Inr (Arr ms)"
    and "list_all printableName (qs @ ms)"
  shows "snd (analyzer_analyzePageGraphQL env an tr page context) =
           Inr (Success path analysis (Num (Fin (real (length qs)))) (Num (Fin (real (length ms)))))"
proof -
  let ?out = "analyzer_generateContent env an tr (pageGraphqlPrompt (ToString env c) context)"
  from logPage_Inr_D [OF assms(1)] assms(2) have "toStringOk path" by auto
  then have "tryBlock env (snd ?out) (Inr path) =
        Inr (Success path analysis (Num (Fin (real (length qs)))) (Num (Fin (real (length ms)))))"
    by (intro tryBlock_success [of "fst ?out"]) (use assms(4-) in simp_all)
  then show ?thesis
    by (simp add: analyzer_analyzePageGraphQL_logged [OF assms(1,2,3)])
qed

text \<open>
  Claim C8, as amended.  When the reply parses to an object whose \<open>queries\<close> and \<open>mutations\<close>
  are arrays, and every element of the two arrays has a name that can be read and printed
  (no element is \<open>null\<close>), the per-item analysis returns the success record
  \<open>{page, analysis, queryCount, mutationCount}\<close> with the parsed reply and the lengths of the
  two arrays: in the grouped pipeline for every call, in the page inventory pipeline for
  every page that \<open>analyzePages\<close> passes on.
\<close>

theorem reply_with_operation_arrays_gives_success_record:
  "(\<forall>reply analysis qs ms.
      replyOf (generateContent env an tr (graphqlPrompt env files pageName)) = Inr (Str reply) \<and>
      JSON_parse env (cleanedResponse reply) = Inr analysis \<and>
      getProp analysis ''queries'' = Inr (Arr qs) \<and> getProp analysis ''mutations'' = Inr (Arr ms) \<and>
      list_all printableName (qs @ ms) \<longrightarrow>
      snd (analyzePageGraphQL env an tr files pageName) =
        Success (Str pageName) analysis (Num (Fin (real (length qs)))) (Num (Fin (real (length ms))))) \<and>
   (\<forall>path c reply analysis qs ms.
      logPage env page = Inr () \<and>
      getProp page ''path'' = Inr path \<and> getProp page ''component'' = Inr c \<and>
      replyOf (analyzer_generateContent env an tr (pageGraphqlPrompt (ToString env c) context))
        = Inr (Str reply) \<and>
      JSON_parse env (cleanedResponse reply) = Inr analysis \<and>
      getProp analysis ''queries'' = Inr (Arr qs) \<and> getProp analysis ''mutations'' = Inr (Arr ms) \<and>
      list_all printableName (qs @ ms) \<longrightarrow>
      snd (analyzer_analyzePageGraphQL env an tr page context) =
        Inr (Success path analysis (Num (Fin (real (length qs)))) (Num (Fin (real (length ms))))))"
  using analyzePageGraphQL_success [of env an tr files pageName]
    analyzer_analyzePageGraphQL_success [of env page _ _ an tr "context"]
  by blast

lemma example_analysis_fields:
  "getProp exampleAnalysis ''queries'' = Inr (Arr [Obj [(''name'', Str ''GetHome'')]])"
  "getProp exampleAnalysis ''mutations'' = Inr (Arr [])"
  by (simp_all add: exampleAnalysis_def)

theorem reply_with_operation_arrays_gives_success_record_witness:
  "snd (analyzePageGraphQL (exampleEnv exampleReply) exampleAnalyzer [] [''pages/home/Home.jsx''] ''home'')
     = Success (Str ''home'')
         (Obj [(''queries'', Arr [Obj [(''name'', Str ''GetHome'')]]), (''mutations'', Arr [])])
         (Num (Fin 1)) (Num (Fin 0)) \<and>
   snd (analyzer_analyzePageGraphQL (exampleEnv exampleReply) exampleAnalyzer [] examplePage ''source text'')
     = Inr (Success (Str ''/home'')
         (Obj [(''queries'', Arr [Obj [(''name'', Str ''GetHome'')]]), (''mutations'', Arr [])])
         (Num (Fin 1)) (Num (Fin 0)))"
proof -
  note t = reply_with_operation_arrays_gives_success_record
    [of "exampleEnv exampleReply" exampleAnalyzer "[]" "[''pages/home/Home.jsx'']" "''home''"
        examplePage "''source text''"]
  have p: "JSON_parse (exampleEnv exampleReply) (cleanedResponse exampleReply) = Inr exampleAnalysis"
    by (simp add: example_cleanedResponse example_JSON_parse)
  have n: "list_all printableName ([Obj [(''name'', Str ''GetHome'')]] @ [])"
    by (simp add: printableName_def)
  have 1: "snd (analyzePageGraphQL (exampleEnv exampleReply) exampleAnalyzer [] [''pages/home/Home.jsx''] ''home'')
     = Success (Str ''home'') exampleAnalysis
         (Num (Fin (real (length [Obj [(''name'', Str ''GetHome'')]])))) (Num (Fin (real (length ([]::jsval list)))))"
    by (rule t [THEN conjunct1, rule_format, of exampleReply])
       (simp only: example_replyOf p example_analysis_fields n simp_thms)
  have 2: "snd (analyzer_analyzePageGraphQL (exampleEnv exampleReply) exampleAnalyzer [] examplePage ''source text'')
     = Inr (Success (Str ''/home'') exampleAnalysis
         (Num (Fin (real (length [Obj [(''name'', Str ''GetHome'')]])))) (Num (Fin (real (length ([]::jsval list))))))"
    by (rule t [THEN conjunct2, rule_format, of _ "Str ''Home.jsx''" exampleReply])
       (simp only: example_replyOf p example_analysis_fields n example_logPage example_page_fields simp_thms)
  show ?thesis using 1 2 by (simp add: exampleAnalysis_def)
qed

text \<open>
  Arrays alone are not enough for a success record: the reply
  \<open>{"queries":[null],"mutations":[]}\<close> parses to an object with two arrays, and printing
  the name of the first query throws, so the error record is returned.
\<close>

theorem reply_with_null_operation_gives_error_record:
  "JSON_parse (exampleEnv nullQueryReply) (cleanedResponse nullQueryReply)
     = Inr (Obj [(''queries'', Arr [Null]), (''mutations'', Arr [])]) \<and>
   replyOf (generateContent (exampleEnv nullQueryReply) exampleAnalyzer []
              (graphqlPrompt (exampleEnv nullQueryReply) [''pages/home/Home.jsx''] ''home''))
     = Inr (Str nullQueryReply) \<and>
   snd (analyzePageGraphQL (exampleEnv nullQueryReply) exampleAnalyzer [] [''pages/home/Home.jsx''] ''home'')
     = Failure (Str ''home'') (message (cannotRead ''null'' ''name''))"
proof -
  have p: "JSON_parse (exampleEnv nullQueryReply) (cleanedResponse nullQueryReply)
     = Inr (Obj [(''queries'', Arr [Null]), (''mutations'', Arr [])])"
    by (simp add: example_cleanedResponse example_JSON_parse)
  have g: "snd (generateContent (exampleEnv nullQueryReply) exampleAnalyzer [] q)
             = Inr (exampleData nullQueryReply)" for q
    by (simp add: snd_generateContent exampleEnv_def exampleParse_def)
  have "tryBlock (exampleEnv nullQueryReply) (Inr (exampleData nullQueryReply)) (Inr (Str ''home''))
          = Inl (cannotRead ''null'' ''name'')"
    by (simp add: tryBlock_def example_response_text p logOperations_def)
  then show ?thesis
    using p by (simp add: example_replyOf snd_analyzePageGraphQL g)
qed

lemma analyzePageGraphQL_lacking:
  assumes "replyOf (generateContent env an tr (graphqlPrompt env files pageName)) = Inr (Str reply)"
    and "JSON_parse env (cleanedResponse reply) = Inr analysis"
    and "lacksField analysis ''queries'' \<or> lacksField analysis ''mutations''"
  shows "\<exists>msg. snd (analyzePageGraphQL env an tr files pageName) = Failure (Str pageName) msg"
proof -
  have "isl (tryBlock env (snd (generateContent env an tr (graphqlPrompt env files pageName)))
               (Inr (Str pageName)))"
    by (rule tryBlock_lacking [of "fst (generateContent env an tr (graphqlPrompt env files pageName))"])
       (use assms in simp_all)
  then show ?thesis
    by (auto simp: snd_analyzePageGraphQL split: sum.splits)
qed

lemma analyzePageGraphQL_Success_D:
  assumes "snd (analyzePageGraphQL env an tr files pageName) = Success p analysis qc mc"
  shows "p = Str pageName \<and>
         \<not> lacksField analysis ''queries'' \<and> \<not> lacksField analysis ''mutations'' \<and>
         fieldLength analysis ''queries'' = Inr qc \<and> fieldLength analysis ''mutations'' = Inr mc \<and>
         (\<exists>reply. replyOf (generateContent env an tr (graphqlPrompt env files pageName)) = Inr (Str reply) \<and>
                   JSON_parse env (cleanedResponse reply) = Inr analysis)"
proof -
  let ?out = "generateContent env an tr (graphqlPrompt env files pageName)"
  from assms have t: "tryBlock env (snd ?out) (Inr (Str pageName)) = Inr (Success p analysis qc mc)"
    by (auto simp: snd_analyzePageGraphQL split: sum.splits)
  from tryBlock_Inr_D [OF t] have "p = Str pageName" by auto
  then show ?thesis
    using tryBlock_success_has_fields [OF t, of "fst ?out"] by simp
qed

lemma analyzer_analyzePageGraphQL_lacking:
  assumes "logPage env page = Inr ()"
    and "getProp page ''path'' = Inr path" and "getProp page ''component'' = Inr c"
    and "replyOf (analyzer_generateContent env an tr (pageGraphqlPrompt (ToString env c) context))
           = Inr (Str reply)"
    and "JSON_parse env (cleanedResponse reply) = Inr analysis"
    and "lacksField analysis ''queries'' \<or> lacksField analysis ''mutations''"
  shows "\<exists>msg. snd (analyzer_analyzePageGraphQL env an tr page context) = Inr (Failure path msg)"
proof -
  let ?out = "analyzer_generateContent env an tr (pageGraphqlPrompt (ToString env c) context)"
  have "isl (tryBlock env (snd ?out) (Inr path))"
    by (rule tryBlock_lacking [of "fst ?out"]) (use assms(4-) in simp_all)
  then show ?thesis
    by (auto simp: analyzer_analyzePageGraphQL_logged [OF assms(1,2,3)] split: sum.splits)
qed

lemma analyzer_analyzePageGraphQL_Success_D:
  assumes "logPage env page = Inr ()"
    and "snd (analyzer_analyzePageGraphQL env an tr page context) = Inr (Success p analysis qc mc)"
  shows "getProp page ''path'' = Inr p \<and>
         \<not> lacksField analysis ''queries'' \<and> \<not> lacksField analysis ''mutations'' \<and>
         fieldLength analysis ''queries'' = Inr qc \<and> fieldLength analysis ''mutations'' = Inr mc"
proof -
  from logPage_Inr_D [OF assms(1)] obtain path c where
    f: "getProp page ''path'' = Inr path" "getProp page ''component'' = Inr c" by blast
  let ?out = "analyzer_generateContent env an tr (pageGraphqlPrompt (ToString env c) context)"
  from assms(2) have t: "tryBlock env (snd ?out) (Inr path) = Inr (Success p analysis qc mc)"
    by (auto simp: analyzer_analyzePageGraphQL_logged [OF assms(1) f] split: sum.splits)
  from tryBlock_Inr_D [OF t] have "p = path" by auto
  then show ?thesis
    using tryBlock_success_has_fields [OF t, of "fst ?out"] f(1) by simp
qed

text \<open>
  Claim C10, as amended.  A reply that parses but in which reading \<open>queries\<close> or \<open>mutations\<close>
  throws or gives \<open>undefined\<close> or \<open>null\<close> (the reply is \<open>null\<close>, or not an object, or an
  object without one of the two fields) never produces a success record: the per-item
  analysis returns the record \<open>{page, error}\<close>, and the loop over the groups returns one
  record for every group whatever the replies are.  So the analysis of every success record
  is the parsed reply and has both fields, neither \<open>undefined\<close> nor \<open>null\<close>, and the two
  counts are what reading the \<open>length\<close> of the fields gives.
\<close>

theorem reply_without_operation_fields_gives_error_record:
  "(\<forall>reply analysis.
      replyOf (generateContent env an tr (graphqlPrompt env files pageName)) = Inr (Str reply) \<and>
      JSON_parse env (cleanedResponse reply) = Inr analysis \<and>
      (lacksField analysis ''queries'' \<or> lacksField analysis ''mutations'') \<longrightarrow>
      (\<exists>msg. snd (analyzePageGraphQL env an tr files pageName) = Failure (Str pageName) msg)) \<and>
   (\<forall>p analysis qc mc.
      snd (analyzePageGraphQL env an tr files pageName) = Success p analysis qc mc \<longrightarrow>
      p = Str pageName \<and>
      \<not> lacksField analysis ''queries'' \<and> \<not> lacksField analysis ''mutations'' \<and>
      fieldLength analysis ''queries'' = Inr qc \<and> fieldLength analysis ''mutations'' = Inr mc \<and>
      (\<exists>reply. replyOf (generateContent env an tr (graphqlPrompt env files pageName)) = Inr (Str reply) \<and>
                JSON_parse env (cleanedResponse reply) = Inr analysis)) \<and>
   (\<forall>groupedFiles.
      length (snd (analyzeGroupedFiles env an tr groupedFiles)) = length groupedFiles) \<and>
   (\<forall>path c reply analysis.
      logPage env page = Inr () \<and>
      getProp page ''path'' = Inr path \<and> getProp page ''component'' = Inr c \<and>
      replyOf (analyzer_generateContent env an tr (pageGraphqlPrompt (ToString env c) context))
        = Inr (Str reply) \<and>
      JSON_parse env (cleanedResponse reply) = Inr analysis \<and>
      (lacksField analysis ''queries'' \<or> lacksField analysis ''mutations'') \<longrightarrow>
      (\<exists>msg. snd (analyzer_analyzePageGraphQL env an tr page context) = Inr (Failure path msg))) \<and>
   (\<forall>p analysis qc mc.
      logPage env page = Inr () \<and>
      snd (analyzer_analyzePageGraphQL env an tr page context) = Inr (Success p analysis qc mc) \<longrightarrow>
      getProp page ''path'' = Inr p \<and>
      \<not> lacksField analysis ''queries'' \<and> \<not> lacksField analysis ''mutations'' \<and>
      fieldLength analysis ''queries'' = Inr qc \<and> fieldLength analysis ''mutations'' = Inr mc)"
proof (intro conjI allI impI)
  fix groupedFiles
  show "length (snd (analyzeGroupedFiles env an tr groupedFiles)) = length groupedFiles"
    by (simp add: analyzeGroupedFiles_def length_snd_groupsLoop)
next
  fix reply analysis
  assume "replyOf (generateContent env an tr (graphqlPrompt env files pageName)) = Inr (Str reply) \<and>
      JSON_parse env (cleanedResponse reply) = Inr analysis \<and>
      (lacksField analysis ''queries'' \<or> lacksField analysis ''mutations'')"
  then show "\<exists>msg. snd (analyzePageGraphQL env an tr files pageName) = Failure (Str pageName) msg"
    using analyzePageGraphQL_lacking by blast
next
  fix path c reply analysis
  assume "logPage env page = Inr () \<and>
      getProp page ''path'' = Inr path \<and> getProp page ''component'' = Inr c \<and>
      replyOf (analyzer_generateContent env an tr (pageGraphqlPrompt (ToString env c) context))
        = Inr (Str reply) \<and>
      JSON_parse env (cleanedResponse reply) = Inr analysis \<and>
      (lacksField analysis ''queries'' \<or> lacksField analysis ''mutations'')"
  then show "\<exists>msg. snd (analyzer_analyzePageGraphQL env an tr page context) = Inr (Failure path msg)"
    using analyzer_analyzePageGraphQL_lacking by blast
qed (use analyzePageGraphQL_Success_D analyzer_analyzePageGraphQL_Success_D in blast)+

theorem reply_without_operation_fields_gives_error_record_witness:
  "(\<exists>msg. snd (analyzePageGraphQL (exampleEnv emptyObjectReply) exampleAnalyzer []
                  [''pages/home/Home.jsx''] ''home'') = Failure (Str ''home'') msg) \<and>
   (\<exists>msg. snd (analyzer_analyzePageGraphQL (exampleEnv emptyObjectReply) exampleAnalyzer []
                  examplePage ''source text'') = Inr (Failure (Str ''/home'') msg)) \<and>
   length (snd (analyzeGroupedFiles (exampleEnv emptyObjectReply) exampleAnalyzer [] exampleGroups)) = 3 \<and>
   snd (analyzePageGraphQL (exampleEnv exampleReply) exampleAnalyzer [] [''pages/home/Home.jsx''] ''home'')
     = Success (Str ''home'') exampleAnalysis (Num (Fin 1)) (Num (Fin 0)) \<and>
   \<not> lacksField exampleAnalysis ''queries'' \<and> \<not> lacksField exampleAnalysis ''mutations'' \<and>
   fieldLength exampleAnalysis ''queries'' = Inr (Num (Fin 1)) \<and>
   fieldLength exampleAnalysis ''mutations'' = Inr (Num (Fin 0)) \<and>
   snd (analyzer_analyzePageGraphQL (exampleEnv exampleReply) exampleAnalyzer [] examplePage ''source text'')
     = Inr (Success (Str ''/home'') exampleAnalysis (Num (Fin 1)) (Num (Fin 0))) \<and>
   getProp examplePage ''path'' = Inr (Str ''/home'')"
proof -
  note t = reply_without_operation_fields_gives_error_record
    [of "exampleEnv emptyObjectReply" exampleAnalyzer "[]" "[''pages/home/Home.jsx'']" "''home''"
        examplePage "''source text''"]
  note s = reply_without_operation_fields_gives_error_record
    [of "exampleEnv exampleReply" exampleAnalyzer "[]" "[''pages/home/Home.jsx'']" "''home''"
        examplePage "''source text''"]
  have p: "JSON_parse (exampleEnv emptyObjectReply) (cleanedResponse emptyObjectReply) = Inr (Obj [])"
    by (simp add: example_cleanedResponse example_JSON_parse)
  have l: "lacksField (Obj []) ''queries''"
    by (simp add: lacksField_def)
  have 1: "\<exists>msg. snd (analyzePageGraphQL (exampleEnv emptyObjectReply) exampleAnalyzer []
                  [''pages/home/Home.jsx''] ''home'') = Failure (Str ''home'') msg"
    by (rule t [THEN conjunct1, rule_format, of emptyObjectReply "Obj []"])
       (simp add: example_replyOf p l)
  have 2: "\<exists>msg. snd (analyzer_analyzePageGraphQL (exampleEnv emptyObjectReply) exampleAnalyzer []
                  examplePage ''source text'') = Inr (Failure (Str ''/home'') msg)"
    by (rule t [THEN conjunct2, THEN conjunct2, THEN conjunct2, THEN conjunct1, rule_format,
                of _ "Str ''Home.jsx''" emptyObjectReply "Obj []"])
       (simp add: example_replyOf p l example_logPage example_page_fields)
  have 3: "length (snd (analyzeGroupedFiles (exampleEnv emptyObjectReply) exampleAnalyzer [] exampleGroups))
             = length exampleGroups"
    by (rule t [THEN conjunct2, THEN conjunct2, THEN conjunct1, rule_format])
  have q: "JSON_parse (exampleEnv exampleReply) (cleanedResponse exampleReply) = Inr exampleAnalysis"
    by (simp add: example_cleanedResponse example_JSON_parse)
  have n: "list_all printableName ([Obj [(''name'', Str ''GetHome'')]] @ [])"
    by (simp add: printableName_def)
  have g: "snd (analyzePageGraphQL (exampleEnv exampleReply) exampleAnalyzer [] [''pages/home/Home.jsx''] ''home'')
             = Success (Str ''home'') exampleAnalysis (Num (Fin 1)) (Num (Fin 0))"
    using analyzePageGraphQL_success [OF example_replyOf(1) q example_analysis_fields n]
    by simp
  have a: "snd (analyzer_analyzePageGraphQL (exampleEnv exampleReply) exampleAnalyzer [] examplePage
                  ''source text'')
             = Inr (Success (Str ''/home'') exampleAnalysis (Num (Fin 1)) (Num (Fin 0)))"
    using analyzer_analyzePageGraphQL_success
            [OF example_logPage example_page_fields example_replyOf(2) q example_analysis_fields n]
    by simp
  have 4: "Str ''home'' = Str ''home'' \<and>
      \<not> lacksField exampleAnalysis ''queries'' \<and> \<not> lacksField exampleAnalysis ''mutations'' \<and>
      fieldLength exampleAnalysis ''queries'' = Inr (Num (Fin 1)) \<and>
      fieldLength exampleAnalysis ''mutations'' = Inr (Num (Fin 0)) \<and>
      (\<exists>reply. replyOf (generateContent (exampleEnv exampleReply) exampleAnalyzer []
                          (graphqlPrompt (exampleEnv exampleReply) [''pages/home/Home.jsx''] ''home''))
                  = Inr (Str reply) \<and>
                JSON_parse (exampleEnv exampleReply) (cleanedResponse reply) = Inr exampleAnalysis)"
    by (rule s [THEN conjunct2, THEN conjunct1, rule_format]) (rule g)
  have 5: "getProp examplePage ''path'' = Inr (Str ''/home'') \<and>
      \<not> lacksField exampleAnalysis ''queries'' \<and> \<not> lacksField exampleAnalysis ''mutations'' \<and>
      fieldLength exampleAnalysis ''queries'' = Inr (Num (Fin 1)) \<and>
      fieldLength exampleAnalysis ''mutations'' = Inr (Num (Fin 0))"
    by (rule s [THEN conjunct2, THEN conjunct2, THEN conjunct2, THEN conjunct2, rule_format])
       (intro conjI example_logPage a)
  show ?thesis using 1 2 3 4 5 g a by (simp add: exampleGroups_def)
qed

text \<open>
  A field that is present but not an array can give a success record: for the reply
  \<open>{"queries":{},"mutations":{}}\<close> the two lengths are \<open>undefined\<close>, nothing is printed
  and nothing throws.
\<close>

theorem reply_with_object_fields_gives_success_record:
  "JSON_parse (exampleEnv objectFieldsReply) (cleanedResponse objectFieldsReply)
     = Inr (Obj [(''queries'', Obj []), (''mutations'', Obj [])]) \<and>
   replyOf (generateContent (exampleEnv objectFieldsReply) exampleAnalyzer []
              (graphqlPrompt (exampleEnv objectFieldsReply) [''pages/home/Home.jsx''] ''home''))
     = Inr (Str objectFieldsReply) \<and>
   snd (analyzePageGraphQL (exampleEnv objectFieldsReply) exampleAnalyzer [] [''pages/home/Home.jsx''] ''home'')
     = Success (Str ''home'') (Obj [(''queries'', Obj []), (''mutations'', Obj [])]) Undefined Undefined"
proof -
  have p: "JSON_parse (exampleEnv objectFieldsReply) (cleanedResponse objectFieldsReply)
     = Inr (Obj [(''queries'', Obj []), (''mutations'', Obj [])])"
    by (simp add: example_cleanedResponse example_JSON_parse)
  have g: "snd (generateContent (exampleEnv objectFieldsReply) exampleAnalyzer [] q)
             = Inr (exampleData objectFieldsReply)" for q
    by (simp add: snd_generateContent exampleEnv_def exampleParse_def)
  have "tryBlock (exampleEnv objectFieldsReply) (Inr (exampleData objectFieldsReply)) (Inr (Str ''home''))
          = Inr (Success (Str ''home'') (Obj [(''queries'', Obj []), (''mutations'', Obj [])]) Undefined Undefined)"
    by (simp add: tryBlock_def example_response_text p logOperations_def fieldLength_def)
  then show ?thesis
    using p by (simp add: example_replyOf snd_analyzePageGraphQL g)
qed

section \<open>The claims on the orchestration\<close>



lemma distinct_groupFilesByPagesFolder:
  "distinct (map fst (groupFilesByPagesFolder env files pagesPath))"
  unfolding groupFilesByPagesFolder_def
  by (rule distinct_Object_fromEntries) (rule distinct_groupLoop, simp)





lemma saveResults_events:
  "fst (saveResults env tr analysisResults) =
     tr @ [WriteFile (outputFileName env) (JSON_stringify env analysisResults)]"
  by (simp add: saveResults_def Let_def)

lemma pagesPathOf_truthy: "truthy (Some (pagesPathOf repoPath))"
  by (simp add: truthy_def pagesPathOf_def)

lemma main_events:
  assumes "findGraphQLFiles env (repoPathOf filePath) listing = Inr found"
  shows "fst (main env listing filePath m) =
           groupEvents env (newAnalyzer (OPENROUTER_API_KEY env) m)
             (groupFilesByPagesFolder env found (pagesPathOf (repoPathOf filePath)))
           @ [WriteFile (outputFileName env)
                (JSON_stringify env
                   (snd (analyzeGroupedFiles env (newAnalyzer (OPENROUTER_API_KEY env) m) []
                      (groupFilesByPagesFolder env found (pagesPathOf (repoPathOf filePath))))))]"
proof -
  let ?an = "newAnalyzer (OPENROUTER_API_KEY env) m"
  let ?g = "groupFilesByPagesFolder env found (pagesPathOf (repoPathOf filePath))"
  have scan: "scanForGraphQLTags env (repoPathOf filePath) listing
                (Some (pagesPathOf (repoPathOf filePath))) = Inr (Grouped ?g)"
    using assms by (simp add: scanForGraphQLTags_def pagesPathOf_truthy)
  have ev: "fst (analyzeGroupedFiles env ?an [] ?g) = [] @ groupEvents env ?an ?g"
    unfolding analyzeGroupedFiles_def
    by (rule fst_groupsLoop_events [where pre = "[]", OF distinct_groupFilesByPagesFolder]) simp
  show ?thesis
    using ev by (simp add: main_def Let_def scan split_beta saveResults_events)
qed

text \<open>
  Claim C9.  When the scan succeeds, \<open>main\<close> performs the events of the loop over the groups
  and then, as its last event, writes the output file once; what it writes is the
  serialization of the results of the loop, which hold one record for every group, in the
  order of the groups, each a success or an error record.  Nothing here depends on how many
  of the records are error records.
\<close>

theorem main_writes_every_result_once:
  assumes "findGraphQLFiles env (repoPathOf filePath) listing = Inr found"
  shows "let an = newAnalyzer (OPENROUTER_API_KEY env) m;
             groupedFiles = groupFilesByPagesFolder env found (pagesPathOf (repoPathOf filePath));
             analysisResults = snd (analyzeGroupedFiles env an [] groupedFiles);
             written = WriteFile (outputFileName env) (JSON_stringify env analysisResults)
         in fst (main env listing filePath m) = groupEvents env an groupedFiles @ [written] \<and>
            filter isWriteFile (fst (main env listing filePath m)) = [written] \<and>
            length analysisResults = length groupedFiles \<and>
            map resultPage analysisResults = map (\<lambda>(pageName, files). Str pageName) groupedFiles"
  unfolding Let_def main_events [OF assms]
  by (simp add: writes_groupEvents analyzeGroupedFiles_def length_snd_groupsLoop
        resultPage_snd_groupsLoop)

lemma example_scan:
  "findGraphQLFiles (exampleEnv refusalReply) (repoPathOf ''app'') (Inr exampleTree)
     = Inr [''repo_to_analyze/app/home/Home.jsx'']"
  by code_simp

lemma example_single_group:
  "groupFilesByPagesFolder (exampleEnv r) [''repo_to_analyze/app/home/Home.jsx'']
     (pagesPathOf (repoPathOf ''app''))
     = [(''..'', [''repo_to_analyze/app/home/Home.jsx''])]"
proof -
  have k: "topLevelFolder (exampleEnv r) (pagesPathOf (repoPathOf ''app''))
             ''repo_to_analyze/app/home/Home.jsx'' = ''..''"
    by (simp add: topLevelFolder_def exampleEnv_def exampleRelative_def pathSegments_def
          pagesPathOf_def repoPathOf_def)
  have l: "groupLoop (exampleEnv r) (pagesPathOf (repoPathOf ''app''))
             [''repo_to_analyze/app/home/Home.jsx''] []
           = [(''..'', [''repo_to_analyze/app/home/Home.jsx''])]"
    by (simp add: k map_has_def map_set_def map_push_def Let_def)
  show ?thesis
    unfolding groupFilesByPagesFolder_def l
    by (simp add: Object_fromEntries_def example_isArrayIndex)
qed

lemma example_all_failed:
  "snd (analyzeGroupedFiles (exampleEnv refusalReply) an []
          [(''..'', [''repo_to_analyze/app/home/Home.jsx''])])
     = [Failure (Str ''..'') ''Unexpected token'']"
proof -
  have p: "JSON_parse (exampleEnv refusalReply) (cleanedResponse refusalReply)
             = Inl (SyntaxError ''Unexpected token'')"
    by (simp add: example_cleanedResponse example_JSON_parse)
  have "snd (analyzePageGraphQL (exampleEnv refusalReply) an []
               [''repo_to_analyze/app/home/Home.jsx''] ''..'')
          = Failure (Str ''..'') (message (SyntaxError ''Unexpected token''))"
    by (rule analyzePageGraphQL_parse_error [OF _ p]) (simp add: example_replyOf)
  then show ?thesis
    by (simp add: analyzeGroupedFiles_def split_beta Let_def)
qed

theorem main_writes_every_result_once_witness:
  "findGraphQLFiles (exampleEnv refusalReply) (repoPathOf ''app'') (Inr exampleTree)
     = Inr [''repo_to_analyze/app/home/Home.jsx''] \<and>
   snd (analyzeGroupedFiles (exampleEnv refusalReply) exampleAnalyzer []
          [(''..'', [''repo_to_analyze/app/home/Home.jsx''])])
     = [Failure (Str ''..'') ''Unexpected token''] \<and>
   fst (main (exampleEnv refusalReply) (Inr exampleTree) ''app'' None)
     = [Fetch (requestFor exampleAnalyzer
                 (graphqlPrompt (exampleEnv refusalReply) [''repo_to_analyze/app/home/Home.jsx''] ''..'')),
        WriteFile ''analysis-2025-01-02T03-04-05-678Z.json'' ''[]'']"
proof -
  have an: "newAnalyzer (OPENROUTER_API_KEY (exampleEnv refusalReply)) None = exampleAnalyzer"
    by (simp add: exampleAnalyzer_def exampleEnv_def)
  have out: "outputFileName (exampleEnv refusalReply) = ''analysis-2025-01-02T03-04-05-678Z.json''"
    by (simp add: outputFileName_def timestamp_def exampleEnv_def)
  have str: "JSON_stringify (exampleEnv refusalReply) rs = ''[]''" for rs
    by (simp add: exampleEnv_def)
  show ?thesis
    using main_writes_every_result_once [OF example_scan, of None]
    unfolding Let_def example_single_group an out str
    by (simp add: example_scan example_all_failed)
qed

end
